theory Spec2Isabelle
  imports Main "HOL-Library.Sublist"
begin

section \<open>Strings\<close>

text \<open>
  The script's strings are modelled as \<^typ>\<open>string\<close>, read as UTF-8 byte sequences: this is
  what the child processes deliver, what \<open>fs.writeFileSync\<close> stores, and what \<open>maxBuffer\<close>
  counts. All literals of the script are ASCII apart from the em dash of the report header.
\<close>

definition nl :: string where
  "nl = [CHR 0x0A]"

definition dq :: string where
  "dq = [CHR 0x22]"

definition em_dash :: string where
  "em_dash = [CHR 0xE2, CHR 0x80, CHR 0x94]"

text \<open>
  \<open>String.prototype.trim\<close> removes ECMAScript's WhiteSpace and LineTerminator code points from
  both ends. Their UTF-8 encodings: U+0009 to U+000D, U+0020, U+00A0, U+1680, U+2000 to U+200A,
  U+2028, U+2029, U+202F, U+205F, U+3000 and U+FEFF.
\<close>

definition js_whitespace :: "string list" where
  "js_whitespace =
     [[CHR 0x09], [CHR 0x0A], [CHR 0x0B], [CHR 0x0C], [CHR 0x0D], [CHR 0x20],
      [CHR 0xC2, CHR 0xA0],
      [CHR 0xE1, CHR 0x9A, CHR 0x80],
      [CHR 0xE2, CHR 0x80, CHR 0x80], [CHR 0xE2, CHR 0x80, CHR 0x81],
      [CHR 0xE2, CHR 0x80, CHR 0x82], [CHR 0xE2, CHR 0x80, CHR 0x83],
      [CHR 0xE2, CHR 0x80, CHR 0x84], [CHR 0xE2, CHR 0x80, CHR 0x85],
      [CHR 0xE2, CHR 0x80, CHR 0x86], [CHR 0xE2, CHR 0x80, CHR 0x87],
      [CHR 0xE2, CHR 0x80, CHR 0x88], [CHR 0xE2, CHR 0x80, CHR 0x89],
      [CHR 0xE2, CHR 0x80, CHR 0x8A],
      [CHR 0xE2, CHR 0x80, CHR 0xA8], [CHR 0xE2, CHR 0x80, CHR 0xA9],
      [CHR 0xE2, CHR 0x80, CHR 0xAF],
      [CHR 0xE2, CHR 0x81, CHR 0x9F],
      [CHR 0xE3, CHR 0x80, CHR 0x80],
      [CHR 0xEF, CHR 0xBB, CHR 0xBF]]"

function strip_leading :: "string list \<Rightarrow> string \<Rightarrow> string" where
  "strip_leading ws s =
     (case find (\<lambda>w. w \<noteq> [] \<and> prefix w s) ws of
        None \<Rightarrow> s
      | Some w \<Rightarrow> strip_leading ws (drop (length w) s))"
  by pat_completeness auto
termination
proof (relation "measure (\<lambda>(ws, s). length s)")
  show "wf (measure (\<lambda>(ws, s). length s))" by simp
next
  fix ws :: "string list" and s w :: string
  assume "find (\<lambda>w. w \<noteq> [] \<and> prefix w s) ws = Some w"
  then have "w \<noteq> []" and "prefix w s"
    by (auto simp: find_Some_iff)
  then have "0 < length w \<and> length w \<le> length s"
    by (auto simp: prefix_def)
  then have "length s - length w < length s"
    by arith
  then show "((ws, drop (length w) s), (ws, s)) \<in> measure (\<lambda>(ws, s). length s)"
    by simp
qed

declare strip_leading.simps [simp del]

definition trimStart :: "string \<Rightarrow> string" where
  "trimStart s = strip_leading js_whitespace s"

definition trimEnd :: "string \<Rightarrow> string" where
  "trimEnd s = rev (strip_leading (map rev js_whitespace) (rev s))"

definition js_trim :: "string \<Rightarrow> string" where
  "js_trim s = trimEnd (trimStart s)"

text \<open>
  \<open>s.split(/\r?\n/)\<close>: the string is cut at every line feed, and a carriage return directly
  before the line feed belongs to the cut. The empty string gives one empty piece.
\<close>

fun push_char :: "char \<Rightarrow> string list \<Rightarrow> string list" where
  "push_char c [] = [[c]]"
| "push_char c (l # ls) = (c # l) # ls"

fun split_lines :: "string \<Rightarrow> string list" where
  "split_lines [] = [[]]"
| "split_lines [c] = (if c = CHR 0x0A then [[], []] else [[c]])"
| "split_lines (c # d # cs) =
     (if c = CHR 0x0A then [] # split_lines (d # cs)
      else if c = CHR 0x0D \<and> d = CHR 0x0A then [] # split_lines cs
      else push_char c (split_lines (d # cs)))"

text \<open>
  \<open>String.prototype.toLowerCase\<close> on the ASCII letters. The script only compares the result
  with \<open>today\<close> and \<open>yesterday\<close>, and no code point outside ASCII lower-cases to a letter of
  these two words, so the comparisons come out as in JavaScript.
\<close>

definition lower_char :: "char \<Rightarrow> char" where
  "lower_char c =
     (if 65 \<le> (of_char c :: nat) \<and> (of_char c :: nat) \<le> 90
      then char_of ((of_char c :: nat) + 32) else c)"

definition toLowerCase :: "string \<Rightarrow> string" where
  "toLowerCase s = map lower_char s"

text \<open>Decimal numerals, as \<open>Number.prototype.toString\<close> prints an integer.\<close>

definition digit_char :: "nat \<Rightarrow> char" where
  "digit_char d = char_of (48 + d)"

function nat_digits :: "nat \<Rightarrow> string" where
  "nat_digits n = (if n < 10 then [digit_char n] else nat_digits (n div 10) @ [digit_char (n mod 10)])"
  by pat_completeness auto
termination
  by (relation "measure (\<lambda>n. n)") auto

declare nat_digits.simps [simp del]

definition int_toString :: "int \<Rightarrow> string" where
  "int_toString i = (if i < 0 then ''-'' @ nat_digits (nat (- i)) else nat_digits (nat i))"

text \<open>A number printed with at least \<open>w\<close> digits, zeros in front.\<close>

definition pad_digits :: "nat \<Rightarrow> nat \<Rightarrow> string" where
  "pad_digits w n = (let ds = nat_digits n in replicate (w - length ds) CHR ''0'' @ ds)"

section \<open>Errors and the environment of a run\<close>

text \<open>
  A thrown JavaScript error, by its \<open>name\<close> and its \<open>message\<close>. The handlers of the script
  read nothing else of it.
\<close>

datatype js_error = JsError (err_name: string) (err_message: string)

text \<open>What a shell command leaves behind: its two output streams and its exit code.\<close>

record proc_output =
  out_text :: string
  err_text :: string
  exit_code :: int

text \<open>
  Everything a run of the script reads from outside itself, as functions the model is given:
  the wall clock at the two \<open>new Date()\<close> calls, the host's time zone (ECMAScript's
  \<open>LocalTZA(t, isUTC)\<close>, in milliseconds), the implementation-defined part of \<open>Date.parse\<close>,
  the module constant \<open>CONFIG\<close>, the result of running a shell command, the output and exit
  code of the \<open>gemini\<close> process for a given input (no code when a signal ended it), and the
  errors of the file system calls.
\<close>

record env =
  clock_resolve :: int
  clock_write :: int
  LocalTZA :: "int \<Rightarrow> bool \<Rightarrow> int"
  parse_other :: "string \<Rightarrow> int option"
  CONFIG :: string
  run_shell :: "string \<Rightarrow> proc_output"
  run_gemini :: "string \<Rightarrow> string \<times> int option"
  mkdir_error :: "string \<Rightarrow> js_error option"
  write_error :: "string \<Rightarrow> js_error option"

section \<open>Dates\<close>

text \<open>
  A time value is a number of milliseconds since the epoch; a \<open>Date\<close> object holds
  \<^term>\<open>Some t\<close>, or \<^term>\<open>None\<close> when it is invalid (NaN). The calendar follows the
  abstract operations of ECMAScript (Day, DaysInYear, DayFromYear, YearFromTime, MonthFromTime,
  DateFromTime, MakeDay, MakeDate, LocalTime, UTC, TimeClip).
\<close>

definition msPerDay :: int where
  "msPerDay = 86400000"

definition Day :: "int \<Rightarrow> int" where
  "Day t = t div msPerDay"

definition DaysInYear :: "int \<Rightarrow> int" where
  "DaysInYear y =
     (if y mod 4 \<noteq> 0 then 365 else if y mod 100 \<noteq> 0 then 366
      else if y mod 400 \<noteq> 0 then 365 else 366)"

definition DayFromYear :: "int \<Rightarrow> int" where
  "DayFromYear y = 365 * (y - 1970) + (y - 1969) div 4 - (y - 1901) div 100 + (y - 1601) div 400"

lemma DayFromYear_step: "DayFromYear y + 364 \<le> DayFromYear (y + 1)"
proof -
  define a a' b b' c c' where
    "a = (y - 1969) div 4" and "a' = (y + 1 - 1969) div 4" and
    "b = (y - 1901) div 100" and "b' = (y + 1 - 1901) div 100" and
    "c = (y - 1601) div 400" and "c' = (y + 1 - 1601) div 400"
  have a: "a \<le> a'"
    unfolding a_def a'_def by (rule zdiv_mono1) simp_all
  have "b' \<le> (y - 1901 + 100) div 100"
    unfolding b'_def by (rule zdiv_mono1) simp_all
  then have b: "b' \<le> b + 1"
    unfolding b_def by simp
  have c: "c \<le> c'"
    unfolding c_def c'_def by (rule zdiv_mono1) simp_all
  have "DayFromYear y = 365 * (y - 1970) + a - b + c"
    unfolding DayFromYear_def a_def b_def c_def by (rule refl)
  moreover have "DayFromYear (y + 1) = 365 * (y + 1 - 1970) + a' - b' + c'"
    unfolding DayFromYear_def a'_def b'_def c'_def by (rule refl)
  ultimately show ?thesis
    using a b c by simp
qed

text \<open>
  YearFromTime is the largest year that starts at or before the day: the search starts from a
  year that is not after it and walks up.
\<close>

function year_search :: "int \<Rightarrow> int \<Rightarrow> int" where
  "year_search d y = (if DayFromYear (y + 1) \<le> d then year_search d (y + 1) else y)"
  by pat_completeness auto
termination
proof (relation "measure (\<lambda>(d, y). nat (d + 1 - DayFromYear (y + 1)))")
  show "wf (measure (\<lambda>(d, y). nat (d + 1 - DayFromYear (y + 1))))" by simp
next
  fix d y :: int
  assume le: "DayFromYear (y + 1) \<le> d"
  have "DayFromYear (y + 1) < DayFromYear (y + 1 + 1)"
    using DayFromYear_step [of "y + 1"] by linarith
  with le show "((d, y + 1), (d, y)) \<in> measure (\<lambda>(d, y). nat (d + 1 - DayFromYear (y + 1)))"
    by simp
qed

declare year_search.simps [simp del]

definition YearFromTime :: "int \<Rightarrow> int" where
  "YearFromTime t =
     (let d = Day t in year_search d (1970 + (if 0 \<le> d then d div 366 else d div 365)))"

definition InLeapYear :: "int \<Rightarrow> bool" where
  "InLeapYear t = (DaysInYear (YearFromTime t) = 366)"

definition DayWithinYear :: "int \<Rightarrow> int" where
  "DayWithinYear t = Day t - DayFromYear (YearFromTime t)"

text \<open>The day within the year on which month \<open>m\<close> (0 to 11) starts.\<close>

definition month_start :: "bool \<Rightarrow> int \<Rightarrow> int" where
  "month_start leap m =
     (let l = (if leap then 1 else 0) in
      if m = 0 then 0 else if m = 1 then 31 else if m = 2 then 59 + l
      else if m = 3 then 90 + l else if m = 4 then 120 + l else if m = 5 then 151 + l
      else if m = 6 then 181 + l else if m = 7 then 212 + l else if m = 8 then 243 + l
      else if m = 9 then 273 + l else if m = 10 then 304 + l else 334 + l)"

definition MonthFromTime :: "int \<Rightarrow> int" where
  "MonthFromTime t =
     (let d = DayWithinYear t; leap = InLeapYear t in
      if d < month_start leap 1 then 0 else if d < month_start leap 2 then 1
      else if d < month_start leap 3 then 2 else if d < month_start leap 4 then 3
      else if d < month_start leap 5 then 4 else if d < month_start leap 6 then 5
      else if d < month_start leap 7 then 6 else if d < month_start leap 8 then 7
      else if d < month_start leap 9 then 8 else if d < month_start leap 10 then 9
      else if d < month_start leap 11 then 10 else 11)"

definition DateFromTime :: "int \<Rightarrow> int" where
  "DateFromTime t = DayWithinYear t - month_start (InLeapYear t) (MonthFromTime t) + 1"

definition MakeDay :: "int \<Rightarrow> int \<Rightarrow> int \<Rightarrow> int" where
  "MakeDay year month date =
     (let ym = year + month div 12; mn = month mod 12 in
      DayFromYear ym + month_start (DaysInYear ym = 366) mn + date - 1)"

definition MakeDate :: "int \<Rightarrow> int \<Rightarrow> int" where
  "MakeDate day time = day * msPerDay + time"

definition LocalTime :: "env \<Rightarrow> int \<Rightarrow> int" where
  "LocalTime e t = t + LocalTZA e t True"

definition UTC :: "env \<Rightarrow> int \<Rightarrow> int" where
  "UTC e t = t - LocalTZA e t False"

definition TimeClip :: "int \<Rightarrow> int option" where
  "TimeClip t = (if 8640000000000000 < \<bar>t\<bar> then None else Some t)"

text \<open>\<open>getFullYear\<close>, \<open>getMonth\<close> and \<open>getDate\<close> of a valid date: fields of the local time.\<close>

definition getFullYear :: "env \<Rightarrow> int \<Rightarrow> int" where
  "getFullYear e t = YearFromTime (LocalTime e t)"

definition getMonth :: "env \<Rightarrow> int \<Rightarrow> int" where
  "getMonth e t = MonthFromTime (LocalTime e t)"

definition getDate :: "env \<Rightarrow> int \<Rightarrow> int" where
  "getDate e t = DateFromTime (LocalTime e t)"

text \<open>
  \<open>new Date(year, month, date)\<close>: a year from 0 to 99 means 1900 plus that year, the fields are
  read as local time at 00:00:00.000, and the result is clipped to the range of time values.
\<close>

definition new_Date :: "env \<Rightarrow> int \<Rightarrow> int \<Rightarrow> int \<Rightarrow> int option" where
  "new_Date e year month date =
     (let yr = (if 0 \<le> year \<and> year \<le> 99 then 1900 + year else year);
          finalDate = MakeDate (MakeDay yr month date) 0
      in TimeClip (UTC e finalDate))"

text \<open>
  \<open>toISOString\<close>: the UTC fields as \<open>YYYY-MM-DDTHH:mm:ss.sssZ\<close>, the year with a sign and six
  digits outside 0 to 9999; a RangeError on an invalid date.
\<close>

definition iso_year :: "int \<Rightarrow> string" where
  "iso_year y =
     (if 0 \<le> y \<and> y \<le> 9999 then pad_digits 4 (nat y)
      else (if y < 0 then ''-'' else ''+'') @ pad_digits 6 (nat \<bar>y\<bar>))"

definition iso_text :: "int \<Rightarrow> string" where
  "iso_text t =
     iso_year (YearFromTime t) @ ''-'' @ pad_digits 2 (nat (MonthFromTime t + 1)) @ ''-'' @
     pad_digits 2 (nat (DateFromTime t)) @ ''T'' @
     pad_digits 2 (nat ((t div 3600000) mod 24)) @ '':'' @
     pad_digits 2 (nat ((t div 60000) mod 60)) @ '':'' @
     pad_digits 2 (nat ((t div 1000) mod 60)) @ ''.'' @
     pad_digits 3 (nat (t mod 1000)) @ ''Z''"

definition toISOString :: "int option \<Rightarrow> js_error + string" where
  "toISOString d =
     (case d of
        None \<Rightarrow> Inl (JsError ''RangeError'' ''Invalid time value'')
      | Some t \<Rightarrow> Inr (iso_text t))"

text \<open>
  \<open>Date.parse\<close>. ECMAScript fixes the reading of the date-only form \<open>YYYY-MM-DD\<close>: midnight
  of that day in UTC. Every other string is left to \<^const>\<open>parse_other\<close>.
\<close>

definition is_digit :: "char \<Rightarrow> bool" where
  "is_digit c = (48 \<le> (of_char c :: nat) \<and> (of_char c :: nat) \<le> 57)"

definition digits_value :: "string \<Rightarrow> int" where
  "digits_value ds = foldl (\<lambda>acc c. 10 * acc + (int (of_char c) - 48)) 0 ds"

definition days_in_month :: "bool \<Rightarrow> int \<Rightarrow> int" where
  "days_in_month leap m =
     (if m = 11 then 31 else month_start leap (m + 1) - month_start leap m)"

definition parse_date_only :: "string \<Rightarrow> int option" where
  "parse_date_only s =
     (if length s = 10 \<and> s ! 4 = CHR ''-'' \<and> s ! 7 = CHR ''-'' \<and>
         list_all is_digit (take 4 s) \<and> list_all is_digit (take 2 (drop 5 s)) \<and>
         list_all is_digit (drop 8 s)
      then (let y = digits_value (take 4 s);
                m = digits_value (take 2 (drop 5 s));
                d = digits_value (drop 8 s)
            in if 1 \<le> m \<and> m \<le> 12 \<and> 1 \<le> d \<and> d \<le> days_in_month (DaysInYear y = 366) (m - 1)
               then Some (MakeDate (MakeDay y (m - 1) d) 0)
               else None)
      else None)"

definition Date_parse :: "env \<Rightarrow> string \<Rightarrow> int option" where
  "Date_parse e s = (case parse_date_only s of Some t \<Rightarrow> Some t | None \<Rightarrow> parse_other e s)"

section \<open>Resolving the window: \<open>parseSinceDate\<close>\<close>

definition parseSinceDate :: "env \<Rightarrow> string \<Rightarrow> js_error + string" where
  "parseSinceDate e input =
     (let now = clock_resolve e in
      if input = [] \<or> toLowerCase input = ''today'' then
        toISOString (new_Date e (getFullYear e now) (getMonth e now) (getDate e now))
      else if toLowerCase input = ''yesterday'' then
        toISOString (new_Date e (getFullYear e now) (getMonth e now) (getDate e now - 1))
      else
        (case Date_parse e input of
           Some parsed \<Rightarrow>
             toISOString (new_Date e (getFullYear e parsed) (getMonth e parsed) (getDate e parsed))
         | None \<Rightarrow>
             toISOString (new_Date e (getFullYear e now) (getMonth e now) (getDate e now))))"

section \<open>Prompt assembly: \<open>buildPromptFromDiffs\<close>\<close>

text \<open>
  \<open>Array.prototype.join\<close> as ECMAScript specifies it: a loop over the index \<open>k\<close> with the
  accumulator \<open>R\<close>, which appends the separator before every element but the first.
\<close>

fun join_loop :: "string \<Rightarrow> string list \<Rightarrow> nat \<Rightarrow> string \<Rightarrow> string" where
  "join_loop sep [] k R = R"
| "join_loop sep (x # xs) k R = join_loop sep xs (Suc k) ((if 0 < k then R @ sep else R) @ x)"

definition js_join :: "string \<Rightarrow> string list \<Rightarrow> string" where
  "js_join sep xs = join_loop sep xs 0 []"

definition diff_separator :: string where
  "diff_separator = nl @ nl @ ''---'' @ nl @ nl"

definition prompt_head :: string where
  "prompt_head =
     ''You are a 10x developer assistant.'' @ nl @
     ''  '' @ nl @
     ''  Input: Recent git commit diffs below:'' @ nl @
     ''  '' @ nl @
     ''  ''"

definition prompt_tail :: string where
  "prompt_tail =
     nl @
     ''  '' @ nl @
     ''  Task 1: Produce a '' @ dq @ ''Developer Work Log'' @ dq @
     '' in markdown format. For each commit write a bullet point summarizing the key code changes and files affected, using the commit hash short form.'' @ nl @
     ''  Task 2: Produce a '' @ dq @ ''Manager Summary'' @ dq @
     '' with concise, non-technical bullet points describing overall progress.'' @ nl @
     ''  '' @ nl @
     ''  Output both sections separated by a horizontal rule.''"

definition buildPromptFromDiffs :: "string list \<Rightarrow> string" where
  "buildPromptFromDiffs diffs =
     (let combinedDiffs = js_join diff_separator diffs
      in prompt_head @ combinedDiffs @ prompt_tail)"

text \<open>
  The specification's reading of the joined batch: every record's diff text, in the order of
  the batch, with the separator between two neighbours and nowhere else.
\<close>

fun separated :: "string \<Rightarrow> string list \<Rightarrow> string" where
  "separated sep [] = []"
| "separated sep [d] = d"
| "separated sep (d # e # ds) = d @ sep @ separated sep (e # ds)"

section \<open>Paths\<close>

text \<open>
  \<open>path.join\<close> and \<open>path.dirname\<close> of Node.js on POSIX. \<open>join\<close> drops empty arguments,
  puts a slash between the others and normalises the result: empty and \<open>.\<close> segments go, a
  \<open>..\<close> segment removes the segment before it (or stays, in a relative path with nothing
  before it), a leading and a trailing slash are kept.
\<close>

fun split_on :: "char \<Rightarrow> string \<Rightarrow> string list" where
  "split_on sep [] = [[]]"
| "split_on sep (c # cs) =
     (if c = sep then [] # split_on sep cs else push_char c (split_on sep cs))"

text \<open>The segments kept so far are held last segment first.\<close>

definition normalize_step :: "bool \<Rightarrow> string list \<Rightarrow> string \<Rightarrow> string list" where
  "normalize_step allowAboveRoot res seg =
     (if seg = [] \<or> seg = ''.'' then res
      else if seg = ''..'' then
        (case res of
           [] \<Rightarrow> if allowAboveRoot then [''..''] else []
         | lastSegment # rest \<Rightarrow>
             if lastSegment \<noteq> ''..'' then rest
             else if allowAboveRoot then ''..'' # res else res)
      else seg # res)"

definition normalizeString :: "string \<Rightarrow> bool \<Rightarrow> string" where
  "normalizeString path allowAboveRoot =
     js_join ''/'' (rev (foldl (normalize_step allowAboveRoot) [] (split_on CHR ''/'' path)))"

definition path_normalize :: "string \<Rightarrow> string" where
  "path_normalize path =
     (if path = [] then ''.''
      else
        (let isAbsolute = (hd path = CHR ''/'');
             trailingSeparator = (last path = CHR ''/'');
             p = normalizeString path (\<not> isAbsolute)
         in if p = [] then (if isAbsolute then ''/'' else if trailingSeparator then ''./'' else ''.'')
            else (let p' = (if trailingSeparator then p @ ''/'' else p)
                  in if isAbsolute then ''/'' @ p' else p')))"

definition path_join :: "string list \<Rightarrow> string" where
  "path_join args =
     (let parts = filter (\<lambda>arg. arg \<noteq> []) args
      in if parts = [] then ''.'' else path_normalize (js_join ''/'' parts))"

text \<open>
  \<open>dirname\<close> scans from the last character down to index 1 for the first slash that follows
  (from the right) a character that is not a slash.
\<close>

fun dirname_scan :: "string \<Rightarrow> nat \<Rightarrow> bool \<Rightarrow> nat option" where
  "dirname_scan path 0 matchedSlash = None"
| "dirname_scan path (Suc i) matchedSlash =
     (if path ! Suc i = CHR ''/''
      then (if \<not> matchedSlash then Some (Suc i) else dirname_scan path i matchedSlash)
      else dirname_scan path i False)"

definition path_dirname :: "string \<Rightarrow> string" where
  "path_dirname path =
     (if path = [] then ''.''
      else
        (let hasRoot = (hd path = CHR ''/'') in
         case dirname_scan path (length path - 1) True of
           None \<Rightarrow> if hasRoot then ''/'' else ''.''
         | Some end \<Rightarrow> if hasRoot \<and> end = 1 then ''//'' else take end path))"

section \<open>The registry and the state of a run\<close>

text \<open>
  The registry file is modelled by the JSON value it holds: the project mapping (a JSON object
  with string values, keys unique; absent when the file has no \<open>projects\<close> member), the active
  project and the output folder name (each absent or a string).
\<close>

record config =
  projects :: "(string \<times> string) list option"
  activeProject :: "string option"
  worklogFolderName :: "string option"

text \<open>
  Reading \<open>obj[key]\<close> on an object that \<open>JSON.parse\<close> built finds the object's own member, and
  otherwise a member of \<open>Object.prototype\<close>: a function, or for \<open>__proto__\<close> the prototype
  itself. The absent value \<open>undefined\<close> is \<^term>\<open>None\<close>.
\<close>

datatype js_value = Str string | Native string

definition object_prototype_keys :: "string list" where
  "object_prototype_keys =
     [''constructor'', ''__defineGetter__'', ''__defineSetter__'', ''hasOwnProperty'',
      ''__lookupGetter__'', ''__lookupSetter__'', ''isPrototypeOf'', ''propertyIsEnumerable'',
      ''toString'', ''valueOf'', ''__proto__'', ''toLocaleString'']"

definition get_property :: "(string \<times> string) list \<Rightarrow> string \<Rightarrow> js_value option" where
  "get_property obj key =
     (case map_of obj key of
        Some v \<Rightarrow> Some (Str v)
      | None \<Rightarrow> if key \<in> set object_prototype_keys then Some (Native key) else None)"

definition truthy :: "js_value option \<Rightarrow> bool" where
  "truthy v = (case v of None \<Rightarrow> False | Some (Str s) \<Rightarrow> s \<noteq> [] | Some (Native k) \<Rightarrow> True)"

text \<open>A value inside a template literal or a string concatenation.\<close>

definition to_text :: "js_value \<Rightarrow> string" where
  "to_text v =
     (case v of
        Str s \<Rightarrow> s
      | Native k \<Rightarrow>
          if k = ''__proto__'' then ''[object Object]''
          else ''function '' @ k @ ''() { [native code] }'')"

definition opt_text :: "string option \<Rightarrow> string" where
  "opt_text v = (case v of None \<Rightarrow> ''undefined'' | Some s \<Rightarrow> s)"

text \<open>
  What the script writes to a stream: a raw \<open>process.stdout.write\<close>, or one call of
  \<open>console.log\<close> or \<open>console.error\<close> with its arguments.
\<close>

datatype console_arg = S string | E js_error | Keys "string list" | Opt "string option"

datatype written = Write string | Log "console_arg list"

text \<open>What the script does to the outside, in order.\<close>

datatype event =
    Exec string nat
  | Spawn string "string list" string
  | Mkdir string
  | WriteFile string string
  | WriteRegistry string config

text \<open>
  The state a run works on: the registry file (or the error that reading and parsing it
  throws), the other files by path, the two output streams, the events so far, and whether the
  spinner's timer is running.
\<close>

record world =
  registry :: "js_error + config"
  files :: "string \<rightharpoonup> string"
  out_stream :: "written list"
  err_stream :: "written list"
  trace :: "event list"
  spinning :: bool

text \<open>How an asynchronous function or the process ends.\<close>

datatype completion = Returned | Threw js_error | Exited int

definition process_exit_code :: "completion \<Rightarrow> int" where
  "process_exit_code c = (case c of Returned \<Rightarrow> 0 | Threw err \<Rightarrow> 1 | Exited n \<Rightarrow> n)"

definition console_log :: "console_arg list \<Rightarrow> world \<Rightarrow> world" where
  "console_log args w = w\<lparr>out_stream := out_stream w @ [Log args]\<rparr>"

definition console_error :: "console_arg list \<Rightarrow> world \<Rightarrow> world" where
  "console_error args w = w\<lparr>err_stream := err_stream w @ [Log args]\<rparr>"

text \<open>\<open>error.message || error\<close>\<close>

definition message_or_error :: "js_error \<Rightarrow> console_arg" where
  "message_or_error err = (if err_message err \<noteq> [] then S (err_message err) else E err)"

text \<open>
  The spinner writes its text and starts a timer; stopping clears the timer and the line. The
  frames the timer draws in between depend on timing and are left out.
\<close>

definition startSpinner :: "string \<Rightarrow> world \<Rightarrow> world" where
  "startSpinner text w = w\<lparr>out_stream := out_stream w @ [Write text], spinning := True\<rparr>"

definition stopSpinner :: "world \<Rightarrow> world" where
  "stopSpinner w = w\<lparr>out_stream := out_stream w @ [Write ([CHR 0x0D, CHR 0x1B] @ ''[K'')], spinning := False\<rparr>"

section \<open>File system and child processes\<close>

definition mkdirSync :: "env \<Rightarrow> world \<Rightarrow> string \<Rightarrow> (js_error + unit) \<times> world" where
  "mkdirSync e w dir =
     (case mkdir_error e dir of
        Some err \<Rightarrow> (Inl err, w)
      | None \<Rightarrow> (Inr (), w\<lparr>trace := trace w @ [Mkdir dir]\<rparr>))"

definition writeFileSync :: "env \<Rightarrow> world \<Rightarrow> string \<Rightarrow> string \<Rightarrow> (js_error + unit) \<times> world" where
  "writeFileSync e w file content =
     (case write_error e file of
        Some err \<Rightarrow> (Inl err, w)
      | None \<Rightarrow>
          (Inr (), w\<lparr>files := (files w)(file \<mapsto> content),
                      trace := trace w @ [WriteFile file content]\<rparr>))"

text \<open>
  \<open>child_process.exec\<close> with a callback: the command runs in a shell; output beyond
  \<open>maxBuffer\<close> on either stream ends the child and gives a RangeError, a non-zero exit code
  gives an error, and otherwise the captured standard output is delivered.
\<close>

definition default_maxBuffer :: nat where
  "default_maxBuffer = 1024 * 1024"

definition exec :: "env \<Rightarrow> world \<Rightarrow> string \<Rightarrow> nat \<Rightarrow> (js_error + string) \<times> world" where
  "exec e w cmd maxBuffer =
     (let r = run_shell e cmd;
          w' = w\<lparr>trace := trace w @ [Exec cmd maxBuffer]\<rparr>
      in if maxBuffer < length (out_text r) then
           (Inl (JsError ''RangeError'' ''stdout maxBuffer length exceeded''), w')
         else if maxBuffer < length (err_text r) then
           (Inl (JsError ''RangeError'' ''stderr maxBuffer length exceeded''), w')
         else if exit_code r \<noteq> 0 then
           (Inl (JsError ''Error'' (''Command failed: '' @ cmd @ nl @ err_text r)), w')
         else (Inr (out_text r), w'))"

section \<open>History extraction\<close>

definition log_command :: "string \<Rightarrow> string \<Rightarrow> string" where
  "log_command repoPath since =
     ''git -C '' @ dq @ repoPath @ dq @ '' log --since='' @ dq @ since @ dq @
     '' --pretty=format:'' @ dq @ ''%H'' @ dq"

definition getCommitHashes :: "env \<Rightarrow> world \<Rightarrow> string \<Rightarrow> string \<Rightarrow> (js_error + string list) \<times> world" where
  "getCommitHashes e w repoPath since =
     (let cmd = log_command repoPath since in
      case exec e w cmd default_maxBuffer of
        (Inl err, w') \<Rightarrow> (Inl err, w')
      | (Inr stdout, w') \<Rightarrow>
          (let hashes = filter (\<lambda>h. h \<noteq> []) (split_lines (js_trim stdout))
           in (Inr hashes, w')))"

definition diff_command :: "string \<Rightarrow> string \<Rightarrow> string" where
  "diff_command repoPath commitHash =
     ''git -C '' @ dq @ repoPath @ dq @ '' show '' @ commitHash @
     '' --unified=3 --pretty=format:'' @ dq @ ''Commit: %H%nAuthor: %an%nDate: %ad%n'' @ dq"

definition diff_maxBuffer :: nat where
  "diff_maxBuffer = 20 * 1024 * 1024"

definition getCommitDiff :: "env \<Rightarrow> world \<Rightarrow> string \<Rightarrow> string \<Rightarrow> (js_error + string) \<times> world" where
  "getCommitDiff e w repoPath commitHash =
     (let cmd = diff_command repoPath commitHash in
      case exec e w cmd diff_maxBuffer of
        (Inl err, w') \<Rightarrow> (Inl err, w')
      | (Inr stdout, w') \<Rightarrow> (Inr (js_trim stdout), w'))"

text \<open>The \<open>for\<close> loop of \<open>getCommitDiffs\<close>: one fetch after the other, the first error ends it.\<close>

fun fetch_loop :: "env \<Rightarrow> string \<Rightarrow> string list \<Rightarrow> string list \<Rightarrow> world \<Rightarrow> (js_error + string list) \<times> world" where
  "fetch_loop e repoPath [] diffs w = (Inr diffs, w)"
| "fetch_loop e repoPath (h # hs) diffs w =
     (case getCommitDiff e w repoPath h of
        (Inl err, w') \<Rightarrow> (Inl err, w')
      | (Inr diff, w') \<Rightarrow> fetch_loop e repoPath hs (diffs @ [diff]) w')"

definition getCommitDiffs :: "env \<Rightarrow> world \<Rightarrow> string \<Rightarrow> string \<Rightarrow> (js_error + string list) \<times> world" where
  "getCommitDiffs e w repoPath since =
     (case getCommitHashes e w repoPath since of
        (Inl err, w') \<Rightarrow> (Inl err, w')
      | (Inr hashes, w') \<Rightarrow>
          (let limitedHashes = take 10 hashes
           in fetch_loop e repoPath limitedHashes [] w'))"

section \<open>The registry operations\<close>

definition loadConfig :: "world \<Rightarrow> js_error + config" where
  "loadConfig w = registry w"

definition saveConfig :: "env \<Rightarrow> world \<Rightarrow> config \<Rightarrow> (js_error + unit) \<times> world" where
  "saveConfig e w cfg =
     (case mkdirSync e w (path_dirname (CONFIG e)) of
        (Inl err, w') \<Rightarrow> (Inl err, w')
      | (Inr u, w') \<Rightarrow>
          (case write_error e (CONFIG e) of
             Some err \<Rightarrow> (Inl err, w')
           | None \<Rightarrow>
               (Inr (), w'\<lparr>registry := Inr cfg,
                           trace := trace w' @ [WriteRegistry (CONFIG e) cfg]\<rparr>)))"

definition undefined_member :: "string \<Rightarrow> js_error" where
  "undefined_member key =
     JsError ''TypeError'' (''Cannot read properties of undefined (reading '' @ [CHR 0x27] @ key @ [CHR 0x27] @ '')'')"

text \<open>The name is \<open>argv[1]\<close>: absent when the command line gives none.\<close>

definition setActiveProject :: "env \<Rightarrow> world \<Rightarrow> string option \<Rightarrow> (js_error + unit) \<times> world" where
  "setActiveProject e w name =
     (case loadConfig w of
        Inl err \<Rightarrow> (Inl err, w)
      | Inr cfg \<Rightarrow>
          (case projects cfg of
             None \<Rightarrow> (Inl (undefined_member (opt_text name)), w)
           | Some ps \<Rightarrow>
               if \<not> truthy (get_property ps (opt_text name))
               then (Inl (JsError ''Error'' (''Unknown project: '' @ opt_text name)), w)
               else
                 (case saveConfig e w (cfg\<lparr>activeProject := name\<rparr>) of
                    (Inl err, w') \<Rightarrow> (Inl err, w')
                  | (Inr u, w') \<Rightarrow>
                      (Inr (), console_log [S ''activeProject set to'', Opt name] w'))))"

definition getActiveRepoPath :: "world \<Rightarrow> js_error + (string \<times> js_value \<times> string)" where
  "getActiveRepoPath w =
     (case loadConfig w of
        Inl err \<Rightarrow> Inl err
      | Inr cfg \<Rightarrow>
          (case activeProject cfg of
             None \<Rightarrow> Inl (JsError ''Error'' ''No activeProject in config'')
           | Some name \<Rightarrow>
               if name = [] then Inl (JsError ''Error'' ''No activeProject in config'')
               else
                 (case projects cfg of
                    None \<Rightarrow> Inl (undefined_member name)
                  | Some ps \<Rightarrow>
                      (case get_property ps name of
                         None \<Rightarrow> Inl (JsError ''Error'' (''Project path missing for '' @ name))
                       | Some repo \<Rightarrow>
                           if \<not> truthy (Some repo)
                           then Inl (JsError ''Error'' (''Project path missing for '' @ name))
                           else
                             Inr (name, repo,
                                  (case worklogFolderName cfg of
                                     None \<Rightarrow> ''worklogs''
                                   | Some f \<Rightarrow> if f = [] then ''worklogs'' else f))))))"

section \<open>The generation back end: \<open>callGemini\<close>\<close>

text \<open>
  \<open>callGemini\<close> for a back end that starts and closes: the prompt is its input, and its output
  and exit code are those of \<^const>\<open>run_gemini\<close>. A \<open>gemini\<close> executable that cannot be
  started is outside the model. The exit code in a string concatenation is a number, or
  \<open>null\<close> after a signal.
\<close>

definition code_text :: "int option \<Rightarrow> string" where
  "code_text code = (case code of None \<Rightarrow> ''null'' | Some c \<Rightarrow> int_toString c)"

definition callGemini :: "env \<Rightarrow> world \<Rightarrow> string \<Rightarrow> (js_error + string) \<times> world" where
  "callGemini e w promptText =
     (let w' = w\<lparr>trace := trace w @ [Spawn ''gemini'' [''--model=gemini-2.5-pro''] promptText]\<rparr>
      in case run_gemini e promptText of
           (out, code) \<Rightarrow>
             if code = Some 0 then (Inr out, w')
             else (Inl (JsError ''Error'' (''gemini exited code '' @ code_text code)), w'))"

section \<open>The pipeline: \<open>generate\<close>\<close>

text \<open>\<open>path.join\<close> throws a TypeError on an argument that is not a string.\<close>

definition path_join_value :: "js_value \<Rightarrow> string \<Rightarrow> js_error + string" where
  "path_join_value repo folder =
     (case repo of
        Str r \<Rightarrow> Inr (path_join [r, folder])
      | Native k \<Rightarrow>
          Inl (JsError ''TypeError''
                 (''The '' @ dq @ ''path'' @ dq @ '' argument must be of type string. Received function '' @ k)))"

definition report_header :: "string \<Rightarrow> string" where
  "report_header date = ''# Work Log '' @ em_dash @ '' '' @ date"

text \<open>The body of the \<open>try\<close> block: its error is what the \<open>catch\<close> block receives.\<close>

definition generate_try :: "env \<Rightarrow> world \<Rightarrow> js_value \<Rightarrow> string \<Rightarrow> string \<Rightarrow> (js_error + unit) \<times> world" where
  "generate_try e w repo folderName since =
     (case getCommitDiffs e w (to_text repo) since of
        (Inl err, w1) \<Rightarrow> (Inl err, w1)
      | (Inr diffs, w1) \<Rightarrow>
          if length diffs = 0 then
            (Inr (), console_log [S ''No commits found since'', S since] (stopSpinner w1))
          else
            (let prompt = buildPromptFromDiffs diffs in
             case callGemini e w1 prompt of
               (Inl err, w2) \<Rightarrow> (Inl err, w2)
             | (Inr result, w2) \<Rightarrow>
                 (let w3 = stopSpinner w2;
                      date = take 10 (iso_text (clock_write e))
                  in case path_join_value repo folderName of
                       Inl err \<Rightarrow> (Inl err, w3)
                     | Inr outDir \<Rightarrow>
                         (case mkdirSync e w3 outDir of
                            (Inl err, w4) \<Rightarrow> (Inl err, w4)
                          | (Inr u, w4) \<Rightarrow>
                              (let outPath = path_join [outDir, date @ ''.md''] in
                               case writeFileSync e w4 outPath
                                      (report_header date @ nl @ nl @ js_trim result @ nl) of
                                 (Inl err, w5) \<Rightarrow> (Inl err, w5)
                               | (Inr v, w5) \<Rightarrow>
                                   (Inr (), console_log [S ''Saved'', S outPath] w5))))))"

definition generate :: "env \<Rightarrow> world \<Rightarrow> string \<Rightarrow> completion \<times> world" where
  "generate e w since =
     (case getActiveRepoPath w of
        Inl err \<Rightarrow> (Threw err, w)
      | Inr (name, repo, folderName) \<Rightarrow>
          (let w0 = startSpinner (''Generating worklog for '' @ name @ ''...'') w in
           case generate_try e w0 repo folderName since of
             (Inr u, w') \<Rightarrow> (Returned, w')
           | (Inl error, w') \<Rightarrow>
               (Exited 1, console_error [message_or_error error] (stopSpinner w'))))"

section \<open>The command line\<close>

definition usage :: string where
  "usage = ''usage: set-active <name> | list-projects | generate [since]''"

definition argument :: "string list \<Rightarrow> nat \<Rightarrow> string option" where
  "argument argv i = (if i < length argv then Some (argv ! i) else None)"

text \<open>The body of the \<open>try\<close> block of the top-level function.\<close>

definition dispatch :: "env \<Rightarrow> world \<Rightarrow> string list \<Rightarrow> completion \<times> world" where
  "dispatch e w argv =
     (let cmd = argument argv 0 in
      if cmd = Some ''set-active'' then
        (case setActiveProject e w (argument argv 1) of
           (Inl err, w') \<Rightarrow> (Threw err, w')
         | (Inr u, w') \<Rightarrow> (Returned, w'))
      else if cmd = Some ''generate'' then
        (let rawSince = (case argument argv 1 of
                           None \<Rightarrow> ''today''
                         | Some a \<Rightarrow> if a = [] then ''today'' else a)
         in case parseSinceDate e rawSince of
              Inl err \<Rightarrow> (Threw err, w)
            | Inr since \<Rightarrow> generate e w since)
      else if cmd = Some ''list-projects'' then
        (case loadConfig w of
           Inl err \<Rightarrow> (Threw err, w)
         | Inr cfg \<Rightarrow>
             (case projects cfg of
                None \<Rightarrow>
                  (Threw (JsError ''TypeError'' ''Cannot convert undefined or null to object''), w)
              | Some ps \<Rightarrow>
                  (Returned,
                   console_log [S ''activeProject:'', Opt (activeProject cfg)]
                     (console_log [S ''Projects:'', Keys (map fst ps)] w))))
      else (Returned, console_log [S usage] w))"

text \<open>
  The top-level function: an error thrown by the dispatch is printed, and the function
  returns. The process then ends with the exit code of \<^const>\<open>process_exit_code\<close>.
\<close>

definition main :: "env \<Rightarrow> world \<Rightarrow> string list \<Rightarrow> completion \<times> world" where
  "main e w argv =
     (case dispatch e w argv of
        (Threw err, w') \<Rightarrow> (Returned, console_error [message_or_error err] w')
      | (c, w') \<Rightarrow> (c, w'))"

section \<open>Observing a run\<close>

text \<open>The diff fetches of a list of hashes, as events.\<close>

definition fetches :: "string \<Rightarrow> string list \<Rightarrow> event list" where
  "fetches repoPath hs = map (\<lambda>h. Exec (diff_command repoPath h) diff_maxBuffer) hs"

text \<open>The events that create or change something in the file system.\<close>

fun writes_file :: "event \<Rightarrow> bool" where
  "writes_file (Exec cmd maxBuffer) = False"
| "writes_file (Spawn file args input) = False"
| "writes_file (Mkdir dir) = True"
| "writes_file (WriteFile file content) = True"
| "writes_file (WriteRegistry file cfg) = True"

fun launches_backend :: "event \<Rightarrow> bool" where
  "launches_backend (Spawn file args input) = True"
| "launches_backend ev = False"

text \<open>The text \<open>generate\<close> starts the spinner with.\<close>

definition spinner_text :: "string \<Rightarrow> string" where
  "spinner_text name = ''Generating worklog for '' @ name @ ''...''"

section \<open>Well-formed paths\<close>

text \<open>
  A plain segment is a file or directory name: not empty, not \<open>.\<close> or \<open>..\<close>, without a slash.
  A clean path is an absolute path made of plain segments only: a slash before every segment,
  at least one segment, no slash at the end.
\<close>

definition plain_segment :: "string \<Rightarrow> bool" where
  "plain_segment seg \<longleftrightarrow> seg \<noteq> [] \<and> seg \<noteq> ''.'' \<and> seg \<noteq> ''..'' \<and> CHR ''/'' \<notin> set seg"

definition clean_path :: "string \<Rightarrow> bool" where
  "clean_path p \<longleftrightarrow>
     (case split_on CHR ''/'' p of
        [] \<Rightarrow> False
      | first # segs \<Rightarrow> first = [] \<and> segs \<noteq> [] \<and> list_all plain_segment segs)"

text \<open>The path that has exactly the given segments, a slash before each.\<close>

definition slashed :: "string list \<Rightarrow> string" where
  "slashed segs = concat (map (\<lambda>seg. CHR ''/'' # seg) segs)"

section \<open>A sample run\<close>

text \<open>
  A concrete environment and state for evaluating the model: a host four hours west of UTC on
  2025-08-01, a repository at \<open>/repo\<close> whose history query lists eleven commits, and a
  registry with that one project active.
\<close>

definition sample_since :: string where
  "sample_since = ''2025-08-01T04:00:00.000Z''"

definition sample_listing :: string where
  "sample_listing =
     ''a1'' @ nl @ ''b2'' @ [CHR 0x0D] @ nl @ ''c3'' @ nl @ ''d4'' @ nl @ ''e5'' @ nl @ ''f6'' @ nl @
     ''a7'' @ nl @ ''b8'' @ nl @ ''c9'' @ nl @ ''d0'' @ nl @ ''ee'' @ nl"

definition sample_hashes :: "string list" where
  "sample_hashes =
     [''a1'', ''b2'', ''c3'', ''d4'', ''e5'', ''f6'', ''a7'', ''b8'', ''c9'', ''d0'', ''ee'']"

definition sample_report :: string where
  "sample_report = '' - done '' @ nl"

definition sample_env :: env where
  "sample_env =
     \<lparr> clock_resolve = 1754056800000,
       clock_write = 1754056860000,
       LocalTZA = (\<lambda>t isUTC. - 14400000),
       parse_other = (\<lambda>s. None),
       CONFIG = ''/home/dev/.worklogs/projects.json'',
       run_shell = (\<lambda>cmd. if cmd = log_command ''/repo'' sample_since
                           then \<lparr>out_text = sample_listing, err_text = [], exit_code = 0\<rparr>
                           else \<lparr>out_text = ''+x'' @ nl, err_text = [], exit_code = 0\<rparr>),
       run_gemini = (\<lambda>promptText. (sample_report, Some 0)),
       mkdir_error = (\<lambda>dir. None),
       write_error = (\<lambda>file. None) \<rparr>"

definition sample_config :: config where
  "sample_config =
     \<lparr> projects = Some [(''crm'', ''/repo'')],
       activeProject = Some ''crm'',
       worklogFolderName = None \<rparr>"

definition sample_world :: world where
  "sample_world =
     \<lparr> registry = Inr sample_config,
       files = Map.empty,
       out_stream = [],
       err_stream = [],
       trace = [],
       spinning = False \<rparr>"

text \<open>
  Variants of the sample environment: a back end that exits with code 3, a repository whose
  history query prints nothing, and a repository whose diffs are one byte larger than the
  capture buffer.
\<close>

definition failing_env :: env where
  "failing_env = sample_env\<lparr>run_gemini := (\<lambda>promptText. (''partial'', Some 3))\<rparr>"

definition quiet_env :: env where
  "quiet_env = sample_env\<lparr>run_shell := (\<lambda>cmd. \<lparr>out_text = [], err_text = [], exit_code = 0\<rparr>)\<rparr>"

definition flooding_env :: env where
  "flooding_env =
     sample_env\<lparr>run_shell :=
       (\<lambda>cmd. if cmd = log_command ''/repo'' sample_since
              then \<lparr>out_text = sample_listing, err_text = [], exit_code = 0\<rparr>
              else \<lparr>out_text = replicate 20971521 CHR ''+'', err_text = [], exit_code = 0\<rparr>)\<rparr>"

definition sample_diffs :: "string list" where
  "sample_diffs =
     [''+x'', ''+x'', ''+x'', ''+x'', ''+x'', ''+x'', ''+x'', ''+x'', ''+x'', ''+x'']"

text \<open>
  Registries for the configuration failures: one with no active project, and one whose active
  project has no entry in the mapping.
\<close>

definition unset_world :: world where
  "unset_world = sample_world\<lparr>registry := Inr (sample_config\<lparr>activeProject := None\<rparr>)\<rparr>"

definition stale_world :: world where
  "stale_world = sample_world\<lparr>registry := Inr (sample_config\<lparr>activeProject := Some ''gone''\<rparr>)\<rparr>"

section \<open>Properties of the prompt assembler\<close>

lemma join_loop_Suc:
  "join_loop sep xs (Suc k) R = R @ concat (map (\<lambda>x. sep @ x) xs)"
  by (induction xs arbitrary: k R) simp_all

lemma separated_Cons:
  "separated sep (x # xs) = x @ concat (map (\<lambda>y. sep @ y) xs)"
  by (induction xs arbitrary: x) simp_all

lemma js_join_separated: "js_join sep xs = separated sep xs"
proof (cases xs)
  case Nil
  then show ?thesis by (simp add: js_join_def)
next
  case (Cons x ys)
  have "js_join sep (x # ys) = join_loop sep ys (Suc 0) x"
    by (simp add: js_join_def)
  also have "\<dots> = separated sep (x # ys)"
    by (simp only: join_loop_Suc separated_Cons)
  finally show ?thesis by (simp only: Cons)
qed

text \<open>
  Claim C9. \<open>buildPromptFromDiffs\<close> is a function of the batch alone: its result is the fixed
  template head, then the diff texts of the batch in their given order with the separator
  (newline, newline, three dashes, newline, newline) between neighbours, then the fixed template
  tail. Equal batches therefore give equal prompts, byte for byte.
\<close>

theorem buildPromptFromDiffs_template:
  "buildPromptFromDiffs diffs
     = prompt_head @ separated [CHR 0x0A, CHR 0x0A, CHR ''-'', CHR ''-'', CHR ''-'', CHR 0x0A, CHR 0x0A] diffs
         @ prompt_tail"
  by (simp add: buildPromptFromDiffs_def js_join_separated diff_separator_def nl_def)

section \<open>Properties of the window resolver\<close>

lemma MonthFromTime_range: "0 \<le> MonthFromTime t \<and> MonthFromTime t \<le> 11"
  by (simp add: MonthFromTime_def Let_def)

lemma MakeDay_fields: "MakeDay (YearFromTime t) (MonthFromTime t) (DateFromTime t) = Day t"
proof -
  have "MonthFromTime t div 12 = 0" and "MonthFromTime t mod 12 = MonthFromTime t"
    using MonthFromTime_range [of t] by simp_all
  then show ?thesis
    by (simp add: MakeDay_def DateFromTime_def InLeapYear_def DayWithinYear_def)
qed

lemma MakeDay_day_before:
  "MakeDay (YearFromTime t) (MonthFromTime t) (DateFromTime t - 1) = Day t - 1"
proof -
  have "MonthFromTime t div 12 = 0" and "MonthFromTime t mod 12 = MonthFromTime t"
    using MonthFromTime_range [of t] by simp_all
  then show ?thesis
    by (simp add: MakeDay_def DateFromTime_def InLeapYear_def DayWithinYear_def)
qed

lemma year_search_ge: "y \<le> year_search d y"
proof (induction d y rule: year_search.induct)
  case (1 d y)
  show ?case
  proof (cases "DayFromYear (y + 1) \<le> d")
    case True
    with "1.IH" have "y + 1 \<le> year_search d (y + 1)" by simp
    with True show ?thesis by (subst year_search.simps) simp
  next
    case False
    then show ?thesis by (subst year_search.simps) simp
  qed
qed

lemma YearFromTime_epoch:
  assumes "0 \<le> t"
  shows "1970 \<le> YearFromTime t"
proof -
  define k where "k = Day t div 366"
  from assms have d: "0 \<le> Day t"
    by (simp add: Day_def msPerDay_def pos_imp_zdiv_nonneg_iff)
  then have k: "0 \<le> k"
    by (simp add: k_def pos_imp_zdiv_nonneg_iff)
  from d have "YearFromTime t = year_search (Day t) (1970 + k)"
    by (simp only: YearFromTime_def Let_def k_def if_True)
  moreover have "1970 + k \<le> year_search (Day t) (1970 + k)"
    by (rule year_search_ge)
  ultimately show ?thesis
    using k by linarith
qed

lemma today_midnight:
  assumes "0 \<le> LocalTime e now"
  shows "new_Date e (getFullYear e now) (getMonth e now) (getDate e now)
           = TimeClip (UTC e (Day (LocalTime e now) * msPerDay))"
proof -
  from YearFromTime_epoch [OF assms] have "\<not> YearFromTime (LocalTime e now) \<le> 99"
    by simp
  then show ?thesis
    by (simp add: new_Date_def Let_def getFullYear_def getMonth_def getDate_def MakeDay_fields
          MakeDate_def)
qed

lemma today_in_range:
  assumes local: "0 \<le> LocalTime e now"
    and upper: "now \<le> 8640000000000000 - 2 * msPerDay"
    and tz: "\<forall>t u. \<bar>LocalTZA e t u\<bar> \<le> msPerDay"
  shows "\<exists>r. new_Date e (getFullYear e now) (getMonth e now) (getDate e now) = Some r"
proof -
  define l where "l = LocalTime e now"
  define m where "m = Day l * msPerDay"
  have "m = l - l mod msPerDay"
    by (simp add: m_def Day_def minus_mod_eq_div_mult)
  moreover have "0 \<le> l mod msPerDay" "l mod msPerDay < msPerDay"
    by (simp_all add: msPerDay_def)
  ultimately have m: "m \<le> l" "l - msPerDay < m"
    by linarith+
  have "l \<le> now + msPerDay"
    using tz [rule_format, of now True] by (simp add: l_def LocalTime_def)
  with m local have "- msPerDay < m" "m \<le> now + msPerDay"
    by (simp_all add: l_def)
  moreover have "\<bar>LocalTZA e m False\<bar> \<le> msPerDay"
    using tz by blast
  ultimately have "\<bar>UTC e m\<bar> \<le> 8640000000000000"
    using upper by (simp add: UTC_def msPerDay_def)
  then show ?thesis
    unfolding today_midnight [OF local] TimeClip_def m_def l_def by simp
qed

lemma toLowerCase_today: "toLowerCase ''today'' = ''today''"
  by code_simp

text \<open>
  Claim C7. A token that is not one of the keywords and that \<open>Date\<close> cannot parse (the token
  \<open>yesterday\<close> is resolved before any parsing is tried) is resolved exactly like \<open>today\<close> at
  the same clock reading. No error is raised for it: with a wall clock whose local time is not
  before 1970, that is not within two days of the largest time value, and offsets of at most a
  day, the result is a string.
\<close>

theorem parseSinceDate_unparseable:
  assumes other: "toLowerCase input \<noteq> ''yesterday''"
    and unparseable: "Date_parse e input = None"
  shows "parseSinceDate e input = parseSinceDate e ''today'' \<and>
         (0 \<le> LocalTime e (clock_resolve e) \<and>
          clock_resolve e \<le> 8640000000000000 - 2 * msPerDay \<and>
          (\<forall>t u. \<bar>LocalTZA e t u\<bar> \<le> msPerDay)
            \<longrightarrow> (\<exists>s. parseSinceDate e input = Inr s))"
proof -
  have today: "parseSinceDate e ''today''
      = toISOString (new_Date e (getFullYear e (clock_resolve e)) (getMonth e (clock_resolve e))
                       (getDate e (clock_resolve e)))"
    by (simp add: parseSinceDate_def toLowerCase_today Let_def)
  have same: "parseSinceDate e input = parseSinceDate e ''today''"
    unfolding today using other unparseable by (simp add: parseSinceDate_def Let_def)
  have "\<exists>s. parseSinceDate e input = Inr s"
    if "0 \<le> LocalTime e (clock_resolve e) \<and>
        clock_resolve e \<le> 8640000000000000 - 2 * msPerDay \<and>
        (\<forall>t u. \<bar>LocalTZA e t u\<bar> \<le> msPerDay)"
  proof -
    from that today_in_range [of e "clock_resolve e"] obtain r where
      "new_Date e (getFullYear e (clock_resolve e)) (getMonth e (clock_resolve e))
                       (getDate e (clock_resolve e)) = Some r"
      by blast
    then show ?thesis
      unfolding same today by (simp add: toISOString_def)
  qed
  with same show ?thesis by blast
qed


lemma today_local_midnight:
  assumes local: "0 \<le> LocalTime e now"
    and upper: "now \<le> 8640000000000000 - 2 * msPerDay"
    and fixed: "\<forall>t u. LocalTZA e t u = offset"
    and small: "\<bar>offset\<bar> \<le> msPerDay"
  shows "\<exists>r. new_Date e (getFullYear e now) (getMonth e now) (getDate e now) = Some r \<and>
             LocalTime e r = Day (LocalTime e now) * msPerDay"
proof -
  from fixed small have "\<forall>t u. \<bar>LocalTZA e t u\<bar> \<le> msPerDay" by simp
  from today_in_range [OF local upper this] obtain r where
    r: "new_Date e (getFullYear e now) (getMonth e now) (getDate e now) = Some r"
    by blast
  then have "TimeClip (UTC e (Day (LocalTime e now) * msPerDay)) = Some r"
    using today_midnight [OF local] by simp
  then have "r = UTC e (Day (LocalTime e now) * msPerDay)"
    by (simp add: TimeClip_def split: if_splits)
  with fixed have "LocalTime e r = Day (LocalTime e now) * msPerDay"
    by (simp add: LocalTime_def UTC_def)
  with r show ?thesis by blast
qed


theorem parseSinceDate_unparseable_witness:
  "parseSinceDate sample_env ''not-a-date'' = parseSinceDate sample_env ''today'' \<and>
   (\<exists>s. parseSinceDate sample_env ''not-a-date'' = Inr s)"
proof -
  have other: "toLowerCase ''not-a-date'' \<noteq> ''yesterday''"
    by code_simp
  have unparseable: "Date_parse sample_env ''not-a-date'' = None"
    by code_simp
  have clock: "0 \<le> LocalTime sample_env (clock_resolve sample_env) \<and>
          clock_resolve sample_env \<le> 8640000000000000 - 2 * msPerDay \<and>
          (\<forall>t u. \<bar>LocalTZA sample_env t u\<bar> \<le> msPerDay)"
    by (simp add: sample_env_def LocalTime_def msPerDay_def)
  from parseSinceDate_unparseable [OF other unparseable] clock show ?thesis
    by blast
qed

text \<open>
  Claim C6, evaluated on a host four hours west of UTC at 14:00 UTC on 2025-08-01. The token
  \<open>2025-08-01\<close> is read by \<open>new Date\<close> as midnight UTC, which is the evening of 2025-07-31 in
  local time; the local date fields of that instant give 2025-07-31, and the result is the local
  midnight of the day before the date given (04:00 UTC on 2025-07-31), while \<open>today\<close> gives
  04:00 UTC on 2025-08-01.
\<close>

theorem parseSinceDate_date_only_shifted:
  "LocalTZA sample_env = (\<lambda>t isUTC. - (4 * 60 * 60 * 1000)) \<and>
   parseSinceDate sample_env ''2025-08-01'' = Inr ''2025-07-31T04:00:00.000Z'' \<and>
   parseSinceDate sample_env ''today'' = Inr ''2025-08-01T04:00:00.000Z''"
proof -
  have "parseSinceDate sample_env ''2025-08-01'' = Inr ''2025-07-31T04:00:00.000Z''"
    by code_simp
  moreover have "parseSinceDate sample_env ''today'' = Inr ''2025-08-01T04:00:00.000Z''"
    by code_simp
  ultimately show ?thesis
    by (simp add: sample_env_def)
qed


section \<open>Properties of dates as text and of paths\<close>

lemma nat_digits_length_1: "n < 10 \<Longrightarrow> length (nat_digits n) = 1"
  by (subst nat_digits.simps) simp

lemma nat_digits_length_step:
  "\<not> n < 10 \<Longrightarrow> length (nat_digits n) = Suc (length (nat_digits (n div 10)))"
  by (subst nat_digits.simps) simp

lemma nat_digits_length_2: "n < 100 \<Longrightarrow> length (nat_digits n) \<le> 2"
proof (cases "n < 10")
  case True
  then show ?thesis by (simp add: nat_digits_length_1)
next
  case False
  assume "n < 100"
  then have "n div 10 < 10" by simp
  from nat_digits_length_1 [OF this] nat_digits_length_step [OF False] show ?thesis
    by simp
qed

lemma nat_digits_length_3: "n < 1000 \<Longrightarrow> length (nat_digits n) \<le> 3"
proof (cases "n < 10")
  case True
  then show ?thesis by (simp add: nat_digits_length_1)
next
  case False
  assume "n < 1000"
  then have "n div 10 < 100" by simp
  from nat_digits_length_2 [OF this] nat_digits_length_step [OF False] show ?thesis
    by simp
qed

lemma nat_digits_length_4: "n < 10000 \<Longrightarrow> length (nat_digits n) \<le> 4"
proof (cases "n < 10")
  case True
  then show ?thesis by (simp add: nat_digits_length_1)
next
  case False
  assume "n < 10000"
  then have "n div 10 < 1000" by simp
  from nat_digits_length_3 [OF this] nat_digits_length_step [OF False] show ?thesis
    by simp
qed

lemma pad_digits_length: "length (nat_digits n) \<le> w \<Longrightarrow> length (pad_digits w n) = w"
  by (simp add: pad_digits_def Let_def)

lemma DayFromYear_step_upper: "DayFromYear (y + 1) \<le> DayFromYear y + 367"
proof -
  define a a' b b' c c' where
    "a = (y - 1969) div 4" and "a' = (y + 1 - 1969) div 4" and
    "b = (y - 1901) div 100" and "b' = (y + 1 - 1901) div 100" and
    "c = (y - 1601) div 400" and "c' = (y + 1 - 1601) div 400"
  have "a' \<le> (y - 1969 + 4) div 4"
    unfolding a'_def by (rule zdiv_mono1) simp_all
  then have a: "a' \<le> a + 1"
    unfolding a_def by simp
  have b: "b \<le> b'"
    unfolding b_def b'_def by (rule zdiv_mono1) simp_all
  have "c' \<le> (y - 1601 + 400) div 400"
    unfolding c'_def by (rule zdiv_mono1) simp_all
  then have c: "c' \<le> c + 1"
    unfolding c_def by simp
  have "DayFromYear y = 365 * (y - 1970) + a - b + c"
    unfolding DayFromYear_def a_def b_def c_def by (rule refl)
  moreover have "DayFromYear (y + 1) = 365 * (y + 1 - 1970) + a' - b' + c'"
    unfolding DayFromYear_def a'_def b'_def c'_def by (rule refl)
  ultimately show ?thesis
    using a b c by simp
qed


lemma year_search_upper: "d < DayFromYear (year_search d y + 1)"
proof (induction d y rule: year_search.induct)
  case (1 d y)
  show ?case
  proof (cases "DayFromYear (y + 1) \<le> d")
    case True
    with "1.IH" have "d < DayFromYear (year_search d (y + 1) + 1)" by simp
    with True show ?thesis by (subst year_search.simps) simp
  next
    case False
    then show ?thesis by (subst year_search.simps) simp
  qed
qed

lemma DayWithinYear_upper: "DayWithinYear t < 367"
proof -
  have "Day t < DayFromYear (YearFromTime t + 1)"
    unfolding YearFromTime_def Let_def by (rule year_search_upper)
  with DayFromYear_step_upper [of "YearFromTime t"] show ?thesis
    by (simp add: DayWithinYear_def)
qed

lemma DateFromTime_upper: "DateFromTime t < 100"
  using DayWithinYear_upper [of t]
  by (simp add: DateFromTime_def MonthFromTime_def month_start_def Let_def)

lemma iso_date_prefix:
  assumes "0 \<le> YearFromTime t" and "YearFromTime t \<le> 9999"
  shows "take 10 (iso_text t)
           = pad_digits 4 (nat (YearFromTime t)) @ ''-'' @
             pad_digits 2 (nat (MonthFromTime t + 1)) @ ''-'' @
             pad_digits 2 (nat (DateFromTime t))"
proof -
  have y: "length (pad_digits 4 (nat (YearFromTime t))) = 4"
    using assms by (intro pad_digits_length nat_digits_length_4) linarith
  have m: "length (pad_digits 2 (nat (MonthFromTime t + 1))) = 2"
    using MonthFromTime_range [of t] by (intro pad_digits_length nat_digits_length_2) linarith
  have d: "length (pad_digits 2 (nat (DateFromTime t))) = 2"
    using DateFromTime_upper [of t] by (intro pad_digits_length nat_digits_length_2) linarith
  from assms y m d show ?thesis
    by (simp add: iso_text_def iso_year_def)
qed

lemma split_on_not_Nil: "split_on c xs \<noteq> []"
  by (induction xs) (auto simp: neq_Nil_conv elim: push_char.elims)

lemma push_char_append: "ls \<noteq> [] \<Longrightarrow> push_char x (ls @ ms) = push_char x ls @ ms"
  by (cases ls) simp_all

lemma split_on_append: "split_on c (xs @ c # ys) = split_on c xs @ split_on c ys"
  by (induction xs) (simp_all add: push_char_append split_on_not_Nil)

lemma split_on_plain: "c \<notin> set xs \<Longrightarrow> split_on c xs = [xs]"
  by (induction xs) auto

lemma split_on_segments:
  "c \<notin> set s \<Longrightarrow> \<forall>x \<in> set segs. c \<notin> set x \<Longrightarrow>
     split_on c (s @ concat (map (\<lambda>seg. c # seg) segs)) = s # segs"
proof (induction segs arbitrary: s)
  case Nil
  then show ?case by (simp add: split_on_plain)
next
  case (Cons x segs)
  have "split_on c (s @ concat (map (\<lambda>seg. c # seg) (x # segs)))
          = split_on c (s @ c # (x @ concat (map (\<lambda>seg. c # seg) segs)))"
    by simp
  also have "\<dots> = split_on c s @ split_on c (x @ concat (map (\<lambda>seg. c # seg) segs))"
    by (rule split_on_append)
  also have "\<dots> = [s] @ (x # segs)"
    using Cons.prems by (simp add: split_on_plain Cons.IH)
  finally show ?case by simp
qed

lemma split_on_slashed:
  "list_all plain_segment segs \<Longrightarrow> split_on CHR ''/'' (slashed segs) = [] # segs"
  using split_on_segments [of "CHR ''/''" "[]" segs]
  by (simp add: slashed_def list_all_iff plain_segment_def)

lemma separated_split_on: "separated [c] (split_on c xs) = xs"
proof (induction xs)
  case Nil
  show ?case by simp
next
  case (Cons x xs)
  obtain l ls where sp: "split_on c xs = l # ls"
    using split_on_not_Nil [of c xs] by (cases "split_on c xs") auto
  with Cons.IH have ih: "l @ concat (map (\<lambda>y. [c] @ y) ls) = xs"
    by (simp add: separated_Cons)
  show ?case
  proof (cases "x = c")
    case True
    with sp ih show ?thesis by (simp add: separated_Cons)
  next
    case False
    with sp ih show ?thesis by (simp add: separated_Cons)
  qed
qed

lemma slashed_separated:
  "segs \<noteq> [] \<Longrightarrow> slashed segs = ''/'' @ separated ''/'' segs"
  by (cases segs) (simp_all add: slashed_def separated_Cons)

lemma clean_path_slashed:
  assumes "clean_path p"
  shows "\<exists>segs. segs \<noteq> [] \<and> list_all plain_segment segs \<and> p = slashed segs"
proof -
  from assms obtain segs where sp: "split_on CHR ''/'' p = [] # segs"
    and segs: "segs \<noteq> []" "list_all plain_segment segs"
    by (auto simp: clean_path_def split: list.splits)
  have "p = separated ''/'' (split_on CHR ''/'' p)"
    by (simp add: separated_split_on)
  also have "\<dots> = ''/'' @ separated ''/'' segs"
    using sp segs by (cases segs) simp_all
  also have "\<dots> = slashed segs"
    using segs by (simp add: slashed_separated)
  finally show ?thesis using segs by blast
qed

lemma foldl_normalize_plain:
  "list_all plain_segment segs \<Longrightarrow>
     foldl (normalize_step allow) res segs = rev segs @ res"
  by (induction segs arbitrary: res) (simp_all add: normalize_step_def plain_segment_def)

lemma last_slashed:
  assumes "segs \<noteq> []" and "list_all plain_segment segs"
  shows "last (slashed segs) \<noteq> CHR ''/''"
proof -
  from assms(1) obtain front z where segs: "segs = front @ [z]"
    by (metis append_butlast_last_id)
  with assms(2) have z: "z \<noteq> []" "CHR ''/'' \<notin> set z"
    by (simp_all add: plain_segment_def)
  from segs have "slashed segs = slashed front @ CHR ''/'' # z"
    by (simp add: slashed_def)
  with z have "last (slashed segs) = last z" by simp
  with z show ?thesis by (metis last_in_set)
qed

lemma path_normalize_slashed:
  assumes "segs \<noteq> []" and "list_all plain_segment segs"
  shows "path_normalize (slashed segs) = slashed segs"
proof -
  obtain s rest where segs: "segs = s # rest"
    using assms(1) by (cases segs) auto
  have hd: "slashed segs \<noteq> []" "hd (slashed segs) = CHR ''/''"
    by (simp_all add: segs slashed_def)
  have "normalizeString (slashed segs) False = js_join ''/'' segs"
    using assms(2)
    by (simp add: normalizeString_def split_on_slashed normalize_step_def foldl_normalize_plain)
  then have n: "normalizeString (slashed segs) False = separated ''/'' segs"
    by (simp add: js_join_separated)
  have ne: "separated ''/'' segs \<noteq> []"
    using assms(2) by (simp add: segs separated_Cons plain_segment_def)
  from hd n ne last_slashed [OF assms] slashed_separated [OF assms(1)] show ?thesis
    by (simp add: path_normalize_def Let_def)
qed

lemma path_join_clean:
  assumes "clean_path p" and "plain_segment seg"
  shows "path_join [p, seg] = p @ ''/'' @ seg \<and> clean_path (p @ ''/'' @ seg)"
proof -
  from clean_path_slashed [OF assms(1)] obtain segs where
    segs: "segs \<noteq> []" "list_all plain_segment segs" and p: "p = slashed segs"
    by blast
  have ext: "p @ ''/'' @ seg = slashed (segs @ [seg])"
    by (simp add: p slashed_def)
  have all: "segs @ [seg] \<noteq> []" "list_all plain_segment (segs @ [seg])"
    using segs assms(2) by simp_all
  have pne: "p \<noteq> []" "seg \<noteq> []"
    using segs assms(2) by (cases segs; simp add: p slashed_def plain_segment_def)+
  then have "path_join [p, seg] = path_normalize (p @ ''/'' @ seg)"
    by (simp add: path_join_def js_join_def)
  also have "\<dots> = p @ ''/'' @ seg"
    unfolding ext by (rule path_normalize_slashed [OF all])
  finally have j: "path_join [p, seg] = p @ ''/'' @ seg" .
  have "clean_path (p @ ''/'' @ seg)"
    unfolding ext using all by (simp add: clean_path_def split_on_slashed)
  with j show ?thesis by blast
qed

lemma digit_char_not_slash: "d < 10 \<Longrightarrow> digit_char d \<noteq> CHR ''/''"
proof
  assume d: "d < 10" and eq: "digit_char d = CHR ''/''"
  from eq have "(of_char (digit_char d) :: nat) = of_char CHR ''/''" by simp
  with d show False by (simp add: digit_char_def)
qed

lemma nat_digits_no_slash: "CHR ''/'' \<notin> set (nat_digits n)"
proof (induction n rule: nat_digits.induct)
  case (1 n)
  show ?case
  proof (cases "n < 10")
    case True
    then show ?thesis
      using digit_char_not_slash [of n] by (subst nat_digits.simps) auto
  next
    case False
    have "n mod 10 < 10" by simp
    from digit_char_not_slash [OF this] "1.IH" False show ?thesis
      by (subst nat_digits.simps) auto
  qed
qed

lemma pad_digits_no_slash: "CHR ''/'' \<notin> set (pad_digits w n)"
  using nat_digits_no_slash [of n] by (auto simp add: pad_digits_def Let_def)

lemma iso_text_no_slash: "CHR ''/'' \<notin> set (iso_text t)"
  by (simp add: iso_text_def iso_year_def pad_digits_no_slash)

lemma date_file_plain: "plain_segment (take 10 (iso_text t) @ ''.md'')"
proof -
  have "CHR ''/'' \<notin> set (take 10 (iso_text t))"
    using iso_text_no_slash [of t] by (auto dest: in_set_takeD)
  moreover have "length (take 10 (iso_text t) @ ''.md'') \<noteq> length ''.''"
    and "length (take 10 (iso_text t) @ ''.md'') \<noteq> length ''..''"
    by simp_all
  then have "take 10 (iso_text t) @ ''.md'' \<noteq> ''.'' \<and> take 10 (iso_text t) @ ''.md'' \<noteq> ''..''"
    by auto
  ultimately show ?thesis
    by (simp add: plain_segment_def)
qed

lemma report_path_clean:
  assumes "clean_path repositoryPath" and "plain_segment folderName"
  shows "path_join [path_join [repositoryPath, folderName], take 10 (iso_text t) @ ''.md'']
           = repositoryPath @ ''/'' @ folderName @ ''/'' @ take 10 (iso_text t) @ ''.md''"
proof -
  from path_join_clean [OF assms] have
    a: "path_join [repositoryPath, folderName] = repositoryPath @ ''/'' @ folderName"
    and b: "clean_path (repositoryPath @ ''/'' @ folderName)"
    by simp_all
  from path_join_clean [OF b date_file_plain, of t] a show ?thesis
    by simp
qed

section \<open>Properties of the history extractor\<close>

lemma snd_exec: "snd (exec e w cmd mb) = w\<lparr>trace := trace w @ [Exec cmd mb]\<rparr>"
  by (simp add: exec_def Let_def)

lemma fst_exec_world: "fst (exec e w cmd mb) = fst (exec e v cmd mb)"
  by (simp add: exec_def Let_def)

lemma snd_getCommitHashes:
  "snd (getCommitHashes e w repoPath since)
     = w\<lparr>trace := trace w @ [Exec (log_command repoPath since) default_maxBuffer]\<rparr>"
  using snd_exec [of e w "log_command repoPath since" default_maxBuffer]
  by (auto simp add: getCommitHashes_def Let_def split: prod.splits sum.splits)

lemma snd_getCommitDiff:
  "snd (getCommitDiff e w repoPath h)
     = w\<lparr>trace := trace w @ [Exec (diff_command repoPath h) diff_maxBuffer]\<rparr>"
  using snd_exec [of e w "diff_command repoPath h" diff_maxBuffer]
  by (auto simp add: getCommitDiff_def Let_def split: prod.splits sum.splits)

lemma fst_getCommitDiff_world:
  "fst (getCommitDiff e w repoPath h) = fst (getCommitDiff e v repoPath h)"
  using fst_exec_world [of e w "diff_command repoPath h" diff_maxBuffer v]
  by (auto simp add: getCommitDiff_def Let_def split: prod.splits sum.splits)

lemma getCommitDiff_Inr:
  "fst (getCommitDiff e w repoPath h) = Inr d \<Longrightarrow>
     d = js_trim (out_text (run_shell e (diff_command repoPath h)))"
  by (auto simp add: getCommitDiff_def exec_def Let_def split: prod.splits sum.splits if_splits)

lemma fetch_loop_trace:
  "fetch_loop e repoPath hs diffs w = (r, w') \<Longrightarrow>
     \<exists>k \<le> length hs.
        w' = w\<lparr>trace := trace w @ fetches repoPath (take k hs)\<rparr> \<and>
        (\<forall>ds. r = Inr ds \<longrightarrow>
           k = length hs \<and>
           ds = diffs @ map (\<lambda>h. js_trim (out_text (run_shell e (diff_command repoPath h)))) hs)"
proof (induction hs arbitrary: diffs w)
  case Nil
  then show ?case by (auto simp: fetches_def)
next
  case (Cons h hs)
  obtain r1 w1 where g: "getCommitDiff e w repoPath h = (r1, w1)"
    by (cases "getCommitDiff e w repoPath h")
  have w1: "w1 = w\<lparr>trace := trace w @ [Exec (diff_command repoPath h) diff_maxBuffer]\<rparr>"
    using snd_getCommitDiff [of e w repoPath h] g by simp
  show ?case
  proof (cases r1)
    case (Inl err)
    with Cons.prems g have "r = Inl err" and "w' = w1" by auto
    with w1 have "w' = w\<lparr>trace := trace w @ fetches repoPath (take 1 (h # hs))\<rparr>"
      by (simp add: fetches_def)
    with \<open>r = Inl err\<close> show ?thesis
      by (intro exI [of _ 1]) simp
  next
    case (Inr d)
    with g have d: "d = js_trim (out_text (run_shell e (diff_command repoPath h)))"
      using getCommitDiff_Inr [of e w repoPath h d] by simp
    from Inr Cons.prems g have "fetch_loop e repoPath hs (diffs @ [d]) w1 = (r, w')" by simp
    from Cons.IH [OF this] obtain k where k: "k \<le> length hs"
      "w' = w1\<lparr>trace := trace w1 @ fetches repoPath (take k hs)\<rparr>"
      "\<forall>ds. r = Inr ds \<longrightarrow> k = length hs \<and>
         ds = (diffs @ [d]) @ map (\<lambda>h. js_trim (out_text (run_shell e (diff_command repoPath h)))) hs"
      by blast
    from k(2) w1 have "w' = w\<lparr>trace := trace w @ fetches repoPath (take (Suc k) (h # hs))\<rparr>"
      by (simp add: fetches_def)
    with k(1) k(3) d show ?thesis
      by (intro exI [of _ "Suc k"]) simp
  qed
qed

lemma fetch_loop_all_ok:
  "\<forall>h \<in> set hs. \<exists>d. fst (getCommitDiff e w repoPath h) = Inr d \<Longrightarrow>
     \<exists>ds. fst (fetch_loop e repoPath hs diffs w) = Inr ds"
proof (induction hs arbitrary: diffs w)
  case Nil
  then show ?case by simp
next
  case (Cons h hs)
  then obtain d where d: "fst (getCommitDiff e w repoPath h) = Inr d" by auto
  obtain w1 where g: "getCommitDiff e w repoPath h = (Inr d, w1)"
    using d by (cases "getCommitDiff e w repoPath h") simp
  have "\<forall>h \<in> set hs. \<exists>d. fst (getCommitDiff e w1 repoPath h) = Inr d"
    using Cons.prems fst_getCommitDiff_world [of e w1 repoPath _ w] by simp
  from Cons.IH [OF this] g show ?case by simp
qed

text \<open>
  Claim C1. When the history query returns more than ten hashes, \<open>getCommitDiffs\<close> keeps the
  first ten in their order: after the history query it runs diff fetches for a prefix of these
  ten, in order, and for no other hash (the prefix ends early only where a fetch fails); a
  returned batch holds the ten trimmed diffs of the first ten hashes, in order; and when each of
  the ten fetches succeeds a batch is returned.
\<close>

theorem getCommitDiffs_first_ten:
  assumes hashes: "getCommitHashes e w repoPath since = (Inr hashes, w1)"
    and long: "10 < length hashes"
    and run: "getCommitDiffs e w repoPath since = (r, w')"
  shows "\<exists>k \<le> 10.
           trace w' = trace w @ [Exec (log_command repoPath since) default_maxBuffer]
                        @ map (\<lambda>h. Exec (diff_command repoPath h) diff_maxBuffer) (take k hashes) \<and>
           (\<forall>diffs. r = Inr diffs \<longrightarrow>
              k = 10 \<and> length diffs = 10 \<and>
              diffs = map (\<lambda>h. js_trim (out_text (run_shell e (diff_command repoPath h))))
                        (take 10 hashes)) \<and>
           ((\<forall>h \<in> set (take 10 hashes). \<exists>d. fst (getCommitDiff e w repoPath h) = Inr d)
              \<longrightarrow> (\<exists>diffs. r = Inr diffs))"
proof -
  have w1: "w1 = w\<lparr>trace := trace w @ [Exec (log_command repoPath since) default_maxBuffer]\<rparr>"
    using snd_getCommitHashes [of e w repoPath since] hashes by simp
  from hashes run have loop: "fetch_loop e repoPath (take 10 hashes) [] w1 = (r, w')"
    by (simp add: getCommitDiffs_def)
  from fetch_loop_trace [OF loop] obtain k where k: "k \<le> length (take 10 hashes)"
    "w' = w1\<lparr>trace := trace w1 @ fetches repoPath (take k (take 10 hashes))\<rparr>"
    "\<forall>ds. r = Inr ds \<longrightarrow> k = length (take 10 hashes) \<and>
       ds = [] @ map (\<lambda>h. js_trim (out_text (run_shell e (diff_command repoPath h)))) (take 10 hashes)"
    by blast
  from long have len: "length (take 10 hashes) = 10" by simp
  from k(1) len have k10: "k \<le> 10" by simp
  then have "take k (take 10 hashes) = take k hashes" by (simp add: min_def)
  with k(2) w1 have tr: "trace w' = trace w @ [Exec (log_command repoPath since) default_maxBuffer]
      @ map (\<lambda>h. Exec (diff_command repoPath h) diff_maxBuffer) (take k hashes)"
    by (simp add: fetches_def)
  have ok: "(\<forall>h \<in> set (take 10 hashes). \<exists>d. fst (getCommitDiff e w repoPath h) = Inr d)
              \<longrightarrow> (\<exists>diffs. r = Inr diffs)"
  proof
    assume "\<forall>h \<in> set (take 10 hashes). \<exists>d. fst (getCommitDiff e w repoPath h) = Inr d"
    then have "\<forall>h \<in> set (take 10 hashes). \<exists>d. fst (getCommitDiff e w1 repoPath h) = Inr d"
      using fst_getCommitDiff_world [of e w1 repoPath _ w] by simp
    from fetch_loop_all_ok [OF this, of "[]"] loop show "\<exists>diffs. r = Inr diffs" by simp
  qed
  have fin: "\<forall>diffs. r = Inr diffs \<longrightarrow>
              k = 10 \<and> length diffs = 10 \<and>
              diffs = map (\<lambda>h. js_trim (out_text (run_shell e (diff_command repoPath h))))
                        (take 10 hashes)"
  proof (intro allI impI)
    fix diffs
    assume "r = Inr diffs"
    with k(3) len have "k = 10"
      and d: "diffs = map (\<lambda>h. js_trim (out_text (run_shell e (diff_command repoPath h))))
                        (take 10 hashes)"
      by simp_all
    from d len have "length diffs = 10" by simp
    with \<open>k = 10\<close> d
    show "k = 10 \<and> length diffs = 10 \<and>
          diffs = map (\<lambda>h. js_trim (out_text (run_shell e (diff_command repoPath h))))
                    (take 10 hashes)"
      by blast
  qed
  from k10 tr fin ok show ?thesis
    by blast
qed

lemma sample_listing_hashes:
  "filter (\<lambda>h. h \<noteq> []) (split_lines (js_trim sample_listing)) = sample_hashes"
  by code_simp

lemma sample_run_log:
  "run_shell sample_env (log_command ''/repo'' sample_since)
     = \<lparr>out_text = sample_listing, err_text = [], exit_code = 0\<rparr>"
  by (simp add: sample_env_def)

lemma sample_listing_length: "length sample_listing = 34"
  by (simp add: sample_listing_def nl_def)

lemma sample_getCommitHashes:
  "fst (getCommitHashes sample_env sample_world ''/repo'' sample_since) = Inr sample_hashes"
  by (simp add: getCommitHashes_def exec_def Let_def sample_run_log sample_listing_length
        default_maxBuffer_def sample_listing_hashes)

section \<open>Properties of the pipeline\<close>

lemma fst_getCommitHashes_world:
  "fst (getCommitHashes e w repoPath since) = fst (getCommitHashes e v repoPath since)"
  using fst_exec_world [of e w "log_command repoPath since" default_maxBuffer v]
  by (auto simp add: getCommitHashes_def Let_def split: prod.splits sum.splits)

lemma getCommitDiffs_frame:
  assumes "getCommitDiffs e w repoPath since = (r, w')"
  shows "\<exists>evs. w' = w\<lparr>trace := trace w @ evs\<rparr> \<and>
               (\<forall>ev \<in> set evs. \<not> writes_file ev \<and> \<not> launches_backend ev)"
proof -
  obtain rh wh where h: "getCommitHashes e w repoPath since = (rh, wh)"
    by (cases "getCommitHashes e w repoPath since")
  have wh: "wh = w\<lparr>trace := trace w @ [Exec (log_command repoPath since) default_maxBuffer]\<rparr>"
    using snd_getCommitHashes [of e w repoPath since] h by simp
  show ?thesis
  proof (cases rh)
    case (Inl err)
    with h assms have "w' = wh" by (simp add: getCommitDiffs_def)
    with wh show ?thesis
      by (intro exI [of _ "[Exec (log_command repoPath since) default_maxBuffer]"]) simp
  next
    case (Inr hashes)
    with h assms have "fetch_loop e repoPath (take 10 hashes) [] wh = (r, w')"
      by (simp add: getCommitDiffs_def)
    from fetch_loop_trace [OF this] obtain k where
      "w' = wh\<lparr>trace := trace wh @ fetches repoPath (take k (take 10 hashes))\<rparr>"
      by blast
    with wh have "w' = w\<lparr>trace := trace w @
        (Exec (log_command repoPath since) default_maxBuffer # fetches repoPath (take k (take 10 hashes)))\<rparr>"
      by simp
    moreover have "\<forall>ev \<in> set (Exec (log_command repoPath since) default_maxBuffer
                     # fetches repoPath (take k (take 10 hashes))).
                     \<not> writes_file ev \<and> \<not> launches_backend ev"
      by (auto simp: fetches_def)
    ultimately show ?thesis by blast
  qed
qed

lemma getCommitDiffs_empty:
  assumes "fst (getCommitHashes e w repoPath since) = Inr []"
  shows "getCommitDiffs e w repoPath since
           = (Inr [], w\<lparr>trace := trace w @ [Exec (log_command repoPath since) default_maxBuffer]\<rparr>)"
proof -
  from assms have "getCommitHashes e w repoPath since
      = (Inr [], w\<lparr>trace := trace w @ [Exec (log_command repoPath since) default_maxBuffer]\<rparr>)"
    using snd_getCommitHashes [of e w repoPath since] by (simp add: prod_eq_iff)
  then show ?thesis by (simp add: getCommitDiffs_def)
qed

lemma generate_launched:
  assumes cfg: "getActiveRepoPath w = Inr (name, repo, folderName)"
    and diffs: "getCommitDiffs e (startSpinner (spinner_text name) w) (to_text repo) since = (Inr diffs, w1)"
    and ne: "diffs \<noteq> []"
  shows "generate e w since =
     (case callGemini e w1 (buildPromptFromDiffs diffs) of
        (Inl err, w2) \<Rightarrow> (Exited 1, console_error [message_or_error err] (stopSpinner w2))
      | (Inr result, w2) \<Rightarrow>
          (case path_join_value repo folderName of
             Inl err \<Rightarrow> (Exited 1, console_error [message_or_error err] (stopSpinner (stopSpinner w2)))
           | Inr outDir \<Rightarrow>
               (case mkdirSync e (stopSpinner w2) outDir of
                  (Inl err, w4) \<Rightarrow> (Exited 1, console_error [message_or_error err] (stopSpinner w4))
                | (Inr u, w4) \<Rightarrow>
                    (case writeFileSync e w4
                            (path_join [outDir, take 10 (iso_text (clock_write e)) @ ''.md''])
                            (report_header (take 10 (iso_text (clock_write e))) @ nl @ nl @ js_trim result @ nl) of
                       (Inl err, w5) \<Rightarrow> (Exited 1, console_error [message_or_error err] (stopSpinner w5))
                     | (Inr v, w5) \<Rightarrow>
                         (Returned,
                          console_log [S ''Saved'',
                             S (path_join [outDir, take 10 (iso_text (clock_write e)) @ ''.md''])] w5)))))"
  using cfg diffs ne
  by (simp add: generate_def generate_try_def spinner_text_def Let_def
        split: prod.splits sum.splits)


lemma callGemini_result:
  "run_gemini e promptText = (out, code) \<Longrightarrow>
     callGemini e w promptText =
       (if code = Some 0 then Inr out
        else Inl (JsError ''Error'' (''gemini exited code '' @ code_text code)),
        w\<lparr>trace := trace w @ [Spawn ''gemini'' [''--model=gemini-2.5-pro''] promptText]\<rparr>)"
  by (simp add: callGemini_def Let_def)

lemma generate_not_launched:
  assumes run: "generate e w since = (c, w')"
    and no: "\<not> (\<exists>name repo folderName diffs w1.
                getActiveRepoPath w = Inr (name, repo, folderName) \<and>
                getCommitDiffs e (startSpinner (spinner_text name) w) (to_text repo) since = (Inr diffs, w1) \<and>
                diffs \<noteq> [])"
  shows "files w' = files w \<and> registry w' = registry w \<and>
         filter writes_file (trace w') = filter writes_file (trace w) \<and>
         filter launches_backend (trace w') = filter launches_backend (trace w)"
proof (cases "getActiveRepoPath w")
  case (Inl err)
  with run show ?thesis by (simp add: generate_def)
next
  case (Inr t)
  then obtain name repo folderName where cfg: "getActiveRepoPath w = Inr (name, repo, folderName)"
    by (cases t) auto
  obtain r w1 where d: "getCommitDiffs e (startSpinner (spinner_text name) w) (to_text repo) since = (r, w1)"
    by (cases "getCommitDiffs e (startSpinner (spinner_text name) w) (to_text repo) since")
  from getCommitDiffs_frame [OF d] obtain evs where
    w1: "w1 = (startSpinner (spinner_text name) w)\<lparr>trace := trace (startSpinner (spinner_text name) w) @ evs\<rparr>"
    and evs: "\<forall>ev \<in> set evs. \<not> writes_file ev \<and> \<not> launches_backend ev"
    by blast
  from evs have f: "filter writes_file evs = []" "filter launches_backend evs = []"
    by (simp_all add: filter_empty_conv)
  from no cfg d have "r = Inr [] \<or> (\<exists>err. r = Inl err)"
    by (cases r) auto
  then show ?thesis
  proof
    assume "r = Inr []"
    with run cfg d have "w' = console_log [S ''No commits found since'', S since] (stopSpinner w1)"
      by (simp add: generate_def generate_try_def spinner_text_def)
    with w1 f show ?thesis
      by (simp add: console_log_def stopSpinner_def startSpinner_def)
  next
    assume "\<exists>err. r = Inl err"
    then obtain err where "r = Inl err" ..
    with run cfg d have "w' = console_error [message_or_error err] (stopSpinner w1)"
      by (simp add: generate_def generate_try_def spinner_text_def)
    with w1 f show ?thesis
      by (simp add: console_error_def stopSpinner_def startSpinner_def)
  qed
qed

text \<open>
  Claim C2. Let the registry name an active project and the extraction deliver a non-empty
  batch, so that the back end is launched. If the back end does not close with exit code 0,
  \<open>generate\<close> ends the process with exit code 1 after printing the error whose message is
  \<open>gemini exited code\<close> followed by the code; no file and no registry entry is created or
  changed, and no directory is made. Hence a run that changes a file is one whose back end
  exited with code 0.
\<close>

theorem generate_backend_exit_code:
  assumes cfg: "getActiveRepoPath w = Inr (name, repo, folderName)"
    and diffs: "getCommitDiffs e (startSpinner (spinner_text name) w) (to_text repo) since = (Inr diffs, w1)"
    and ne: "diffs \<noteq> []"
    and backend: "run_gemini e (buildPromptFromDiffs diffs) = (out, code)"
    and run: "generate e w since = (c, w')"
  shows "(code \<noteq> Some 0 \<longrightarrow>
            c = Exited 1 \<and>
            err_stream w' = err_stream w @
              [Log [S (''gemini exited code '' @
                       (case code of None \<Rightarrow> ''null'' | Some n \<Rightarrow> int_toString n))]] \<and>
            files w' = files w \<and> registry w' = registry w \<and>
            filter writes_file (trace w') = filter writes_file (trace w)) \<and>
         (files w' \<noteq> files w \<longrightarrow> code = Some 0)"
proof -
  from getCommitDiffs_frame [OF diffs] obtain evs where
    w1: "w1 = (startSpinner (spinner_text name) w)\<lparr>trace := trace (startSpinner (spinner_text name) w) @ evs\<rparr>"
    and evs: "\<forall>ev \<in> set evs. \<not> writes_file ev \<and> \<not> launches_backend ev"
    by blast
  from evs have f: "filter writes_file evs = []"
    by (simp add: filter_empty_conv)
  have fail: "c = Exited 1 \<and>
            err_stream w' = err_stream w @
              [Log [S (''gemini exited code '' @
                       (case code of None \<Rightarrow> ''null'' | Some n \<Rightarrow> int_toString n))]] \<and>
            files w' = files w \<and> registry w' = registry w \<and>
            filter writes_file (trace w') = filter writes_file (trace w)"
    if nz: "code \<noteq> Some 0"
  proof -
    from nz run have "c = Exited 1"
      and w': "w' = console_error
                 [message_or_error (JsError ''Error'' (''gemini exited code '' @ code_text code))]
                 (stopSpinner (w1\<lparr>trace := trace w1 @
                    [Spawn ''gemini'' [''--model=gemini-2.5-pro''] (buildPromptFromDiffs diffs)]\<rparr>))"
      unfolding generate_launched [OF cfg diffs ne] callGemini_result [OF backend]
      by simp_all
    from w' w1 f have "files w' = files w" "registry w' = registry w"
      "filter writes_file (trace w') = filter writes_file (trace w)"
      "err_stream w' = err_stream w @
              [Log [S (''gemini exited code '' @
                       (case code of None \<Rightarrow> ''null'' | Some n \<Rightarrow> int_toString n))]]"
      by (simp_all add: console_error_def stopSpinner_def startSpinner_def message_or_error_def
            code_text_def)
    with \<open>c = Exited 1\<close> show ?thesis by blast
  qed
  then show ?thesis by blast
qed

text \<open>
  Claim C3. For the \<open>generate\<close> command with a resolved window, an active project and a history
  query that returns no hash, the run returns normally (exit code 0). Its only event is the
  history query: no prompt is passed to a back end process, no directory is made and no file is
  written. Besides the spinner text and its clearing, it prints \<open>No commits found since\<close>
  followed by the resolved window.
\<close>

theorem generate_no_commits:
  assumes cmd: "argument argv 0 = Some ''generate''"
    and window: "parseSinceDate e (case argument argv 1 of
                                     None \<Rightarrow> ''today''
                                   | Some a \<Rightarrow> if a = [] then ''today'' else a) = Inr since"
    and cfg: "getActiveRepoPath w = Inr (name, repo, folderName)"
    and none: "fst (getCommitHashes e w (to_text repo) since) = Inr []"
  shows "main e w argv =
           (Returned,
            w\<lparr>out_stream := out_stream w @
                 [Write (''Generating worklog for '' @ name @ ''...''),
                  Write ([CHR 0x0D, CHR 0x1B] @ ''[K''),
                  Log [S ''No commits found since'', S since]],
               trace := trace w @ [Exec (log_command (to_text repo) since) default_maxBuffer],
               spinning := False\<rparr>) \<and>
         process_exit_code (fst (main e w argv)) = 0"
proof -
  let ?w0 = "startSpinner (spinner_text name) w"
  from none have "fst (getCommitHashes e ?w0 (to_text repo) since) = Inr []"
    using fst_getCommitHashes_world [of e ?w0 "to_text repo" since w] by simp
  from getCommitDiffs_empty [OF this]
  have "generate e w since =
          (Returned, console_log [S ''No commits found since'', S since]
             (stopSpinner (?w0\<lparr>trace := trace ?w0 @
                [Exec (log_command (to_text repo) since) default_maxBuffer]\<rparr>)))"
    using cfg by (simp add: generate_def generate_try_def spinner_text_def)
  then have "generate e w since =
           (Returned,
            w\<lparr>out_stream := out_stream w @
                 [Write (''Generating worklog for '' @ name @ ''...''),
                  Write ([CHR 0x0D, CHR 0x1B] @ ''[K''),
                  Log [S ''No commits found since'', S since]],
               trace := trace w @ [Exec (log_command (to_text repo) since) default_maxBuffer],
               spinning := False\<rparr>)"
    by (simp add: console_log_def stopSpinner_def startSpinner_def spinner_text_def)
  with cmd window show ?thesis
    by (simp add: main_def dispatch_def Let_def process_exit_code_def)
qed

text \<open>
  Claim C4. When \<open>generate\<close> returns normally after a non-empty batch, the back end has exited
  with code 0 and the file at \<open>path.join(path.join(repositoryPath, outputFolderName), date.md)\<close>
  holds exactly the header \<open># Work Log\<close>, an em dash and the date, an empty line, the trimmed
  report and a final newline, where the date is the first ten characters of the ISO form of
  the time of writing. Every other file is as before; what the file held before does not
  matter, so a second run for the same date leaves only the second report. For a repository
  path that is a clean absolute path and a folder name that is a plain segment, the path is the
  repository path, a slash, the folder name, a slash, the date and \<open>.md\<close>; for a clock in the
  years 0 to 9999 the date is the UTC date as four, two and two digits with dashes between.
\<close>

theorem generate_writes_report:
  assumes cfg: "getActiveRepoPath w = Inr (name, repo, folderName)"
    and diffs: "getCommitDiffs e (startSpinner (spinner_text name) w) (to_text repo) since = (Inr diffs, w1)"
    and ne: "diffs \<noteq> []"
    and run: "generate e w since = (Returned, w')"
  shows "\<exists>repositoryPath result date outPath.
           repo = Str repositoryPath \<and>
           run_gemini e (buildPromptFromDiffs diffs) = (result, Some 0) \<and>
           date = take 10 (iso_text (clock_write e)) \<and>
           outPath = path_join [path_join [repositoryPath, folderName], date @ ''.md''] \<and>
           files w' = (files w)(outPath \<mapsto>
              ''# Work Log '' @ [CHR 0xE2, CHR 0x80, CHR 0x94] @ '' '' @ date @ [CHR 0x0A, CHR 0x0A]
                @ js_trim result @ [CHR 0x0A]) \<and>
           out_stream w' = out_stream w @
              [Write (''Generating worklog for '' @ name @ ''...''),
               Write ([CHR 0x0D, CHR 0x1B] @ ''[K''),
               Log [S ''Saved'', S outPath]] \<and>
           (clean_path repositoryPath \<and> plain_segment folderName \<longrightarrow>
              outPath = repositoryPath @ ''/'' @ folderName @ ''/'' @ date @ ''.md'') \<and>
           (0 \<le> YearFromTime (clock_write e) \<and> YearFromTime (clock_write e) \<le> 9999 \<longrightarrow>
              date = pad_digits 4 (nat (YearFromTime (clock_write e))) @ ''-'' @
                     pad_digits 2 (nat (MonthFromTime (clock_write e) + 1)) @ ''-'' @
                     pad_digits 2 (nat (DateFromTime (clock_write e))))"
proof -
  from getCommitDiffs_frame [OF diffs] obtain evs where
    w1: "w1 = (startSpinner (spinner_text name) w)\<lparr>trace := trace (startSpinner (spinner_text name) w) @ evs\<rparr>"
    by blast
  obtain result code where backend: "run_gemini e (buildPromptFromDiffs diffs) = (result, code)"
    by (cases "run_gemini e (buildPromptFromDiffs diffs)")
  note unfolded = run [unfolded generate_launched [OF cfg diffs ne] callGemini_result [OF backend]]
  from unfolded have code: "code = Some 0"
    by (simp split: if_splits)
  from unfolded code obtain r where repo: "repo = Str r"
    by (cases repo) (simp_all add: path_join_value_def)
  let ?date = "take 10 (iso_text (clock_write e))"
  let ?outDir = "path_join [r, folderName]"
  let ?outPath = "path_join [?outDir, ?date @ ''.md'']"
  let ?w2 = "w1\<lparr>trace := trace w1 @
               [Spawn ''gemini'' [''--model=gemini-2.5-pro''] (buildPromptFromDiffs diffs)]\<rparr>"
  from unfolded code repo have mk: "mkdir_error e ?outDir = None"
    by (simp add: path_join_value_def mkdirSync_def split: option.splits)
  with unfolded code repo have wr: "write_error e ?outPath = None"
    by (simp add: path_join_value_def mkdirSync_def writeFileSync_def split: option.splits)
  from unfolded code repo mk wr have
    "w' = console_log [S ''Saved'', S ?outPath]
            ((stopSpinner ?w2)\<lparr>trace := trace (stopSpinner ?w2) @ [Mkdir ?outDir]\<rparr>
               \<lparr>files := (files (stopSpinner ?w2))(?outPath \<mapsto>
                    report_header ?date @ nl @ nl @ js_trim result @ nl),
                trace := trace (stopSpinner ?w2) @ [Mkdir ?outDir] @
                    [WriteFile ?outPath (report_header ?date @ nl @ nl @ js_trim result @ nl)]\<rparr>)"
    by (simp add: path_join_value_def mkdirSync_def writeFileSync_def)
  with w1 have "files w' = (files w)(?outPath \<mapsto>
              ''# Work Log '' @ [CHR 0xE2, CHR 0x80, CHR 0x94] @ '' '' @ ?date @ [CHR 0x0A, CHR 0x0A]
                @ js_trim result @ [CHR 0x0A])"
    and "out_stream w' = out_stream w @
              [Write (''Generating worklog for '' @ name @ ''...''),
               Write ([CHR 0x0D, CHR 0x1B] @ ''[K''),
               Log [S ''Saved'', S ?outPath]]"
    by (simp_all add: console_log_def stopSpinner_def startSpinner_def spinner_text_def
          report_header_def em_dash_def nl_def)
  moreover have "clean_path r \<and> plain_segment folderName \<longrightarrow>
      ?outPath = r @ ''/'' @ folderName @ ''/'' @ ?date @ ''.md''"
    using report_path_clean [of r folderName "clock_write e"] by blast
  moreover have "0 \<le> YearFromTime (clock_write e) \<and> YearFromTime (clock_write e) \<le> 9999 \<longrightarrow>
      ?date = pad_digits 4 (nat (YearFromTime (clock_write e))) @ ''-'' @
              pad_digits 2 (nat (MonthFromTime (clock_write e) + 1)) @ ''-'' @
              pad_digits 2 (nat (DateFromTime (clock_write e)))"
    using iso_date_prefix [of "clock_write e"] by blast
  ultimately show ?thesis
    using repo backend code by blast
qed


lemma exec_delivers_whole_output:
  "exec e w cmd maxBuffer = (Inr s, w1) \<Longrightarrow>
     s = out_text (run_shell e cmd) \<and> length s \<le> maxBuffer \<and> exit_code (run_shell e cmd) = 0"
  by (auto simp add: exec_def Let_def split: if_splits)

lemma exec_overflow:
  "maxBuffer < length (out_text (run_shell e cmd)) \<Longrightarrow>
     fst (exec e w cmd maxBuffer) = Inl (JsError ''RangeError'' ''stdout maxBuffer length exceeded'')"
  by (simp add: exec_def Let_def)

lemma getCommitDiff_overflow:
  "diff_maxBuffer < length (out_text (run_shell e (diff_command repoPath h))) \<Longrightarrow>
     fst (getCommitDiff e w repoPath h) = Inl (JsError ''RangeError'' ''stdout maxBuffer length exceeded'')"
  using exec_overflow [of diff_maxBuffer e "diff_command repoPath h" w]
  by (auto simp add: getCommitDiff_def Let_def split: prod.splits sum.splits)

lemma getCommitHashes_overflow:
  "default_maxBuffer < length (out_text (run_shell e (log_command repoPath since))) \<Longrightarrow>
     fst (getCommitHashes e w repoPath since) = Inl (JsError ''RangeError'' ''stdout maxBuffer length exceeded'')"
  using exec_overflow [of default_maxBuffer e "log_command repoPath since" w]
  by (auto simp add: getCommitHashes_def Let_def split: prod.splits sum.splits)

lemma fetch_loop_first_failure:
  "i < length hs \<Longrightarrow>
   \<forall>j<i. \<exists>d. fst (getCommitDiff e w repoPath (hs ! j)) = Inr d \<Longrightarrow>
   fst (getCommitDiff e w repoPath (hs ! i)) = Inl err \<Longrightarrow>
   fst (fetch_loop e repoPath hs diffs w) = Inl err"
proof (induction hs arbitrary: i diffs w)
  case Nil
  then show ?case by simp
next
  case (Cons h hs)
  show ?case
  proof (cases i)
    case 0
    with Cons.prems(3) have "fst (getCommitDiff e w repoPath h) = Inl err" by simp
    then show ?thesis
      by (cases "getCommitDiff e w repoPath h") simp
  next
    case (Suc i')
    from Cons.prems(2) Suc have "\<exists>d. fst (getCommitDiff e w repoPath ((h # hs) ! 0)) = Inr d"
      by blast
    then obtain d w1 where g: "getCommitDiff e w repoPath h = (Inr d, w1)"
      by (cases "getCommitDiff e w repoPath h") auto
    have a: "i' < length hs" using Cons.prems(1) Suc by simp
    have b: "\<forall>j<i'. \<exists>d. fst (getCommitDiff e w1 repoPath (hs ! j)) = Inr d"
    proof (intro allI impI)
      fix j assume "j < i'"
      then have "Suc j < i" using Suc by simp
      with Cons.prems(2) have "\<exists>d. fst (getCommitDiff e w repoPath ((h # hs) ! Suc j)) = Inr d"
        by blast
      then show "\<exists>d. fst (getCommitDiff e w1 repoPath (hs ! j)) = Inr d"
        using fst_getCommitDiff_world [of e w1 repoPath "hs ! j" w] by simp
    qed
    have c: "fst (getCommitDiff e w1 repoPath (hs ! i')) = Inl err"
      using Cons.prems(3) Suc fst_getCommitDiff_world [of e w1 repoPath "hs ! i'" w] by simp
    from Cons.IH [OF a b c] g show ?thesis by simp
  qed
qed

lemma generate_extraction_error:
  assumes cfg: "getActiveRepoPath w = Inr (name, repo, folderName)"
    and err: "fst (getCommitDiffs e (startSpinner (spinner_text name) w) (to_text repo) since) = Inl err"
    and run: "generate e w since = (c, w')"
  shows "c = Exited 1 \<and> err_stream w' = err_stream w @ [Log [message_or_error err]] \<and>
         files w' = files w \<and>
         filter writes_file (trace w') = filter writes_file (trace w) \<and>
         filter launches_backend (trace w') = filter launches_backend (trace w)"
proof -
  let ?w0 = "startSpinner (spinner_text name) w"
  obtain w1 where d: "getCommitDiffs e ?w0 (to_text repo) since = (Inl err, w1)"
    using err by (cases "getCommitDiffs e ?w0 (to_text repo) since") simp
  from getCommitDiffs_frame [OF d] obtain evs where
    w1: "w1 = ?w0\<lparr>trace := trace ?w0 @ evs\<rparr>"
    by blast
  from run cfg d have c: "c = Exited 1"
    and w': "w' = console_error [message_or_error err] (stopSpinner w1)"
    by (simp_all add: generate_def generate_try_def spinner_text_def)
  from w' w1 have e: "err_stream w' = err_stream w @ [Log [message_or_error err]]"
    by (simp add: console_error_def stopSpinner_def startSpinner_def)
  have "\<not> (\<exists>name repo folderName diffs w1.
                getActiveRepoPath w = Inr (name, repo, folderName) \<and>
                getCommitDiffs e (startSpinner (spinner_text name) w) (to_text repo) since = (Inr diffs, w1) \<and>
                diffs \<noteq> [])"
    using cfg d by auto
  from generate_not_launched [OF run this] c e show ?thesis by simp
qed

text \<open>
  Claim C8. If the history query prints more than the default capture buffer, or the first
  failing diff fetch among the retained hashes is one that prints more than the diff capture
  buffer, then \<open>generate\<close> ends the process with exit code 1 and prints
  \<open>stdout maxBuffer length exceeded\<close>; no truncated output is passed on: the back end is not
  launched and nothing is written. The diff capture buffer is 20 MiB.
\<close>

theorem generate_output_too_large:
  assumes cfg: "getActiveRepoPath w = Inr (name, repo, folderName)"
    and run: "generate e w since = (c, w')"
    and big: "default_maxBuffer < length (out_text (run_shell e (log_command (to_text repo) since)))
              \<or> (\<exists>hashes i.
                    fst (getCommitHashes e w (to_text repo) since) = Inr hashes \<and>
                    i < length hashes \<and> i < 10 \<and>
                    (\<forall>j<i. \<exists>d. fst (getCommitDiff e w (to_text repo) (hashes ! j)) = Inr d) \<and>
                    diff_maxBuffer < length (out_text (run_shell e (diff_command (to_text repo) (hashes ! i)))))"
  shows "c = Exited 1 \<and>
         err_stream w' = err_stream w @ [Log [S ''stdout maxBuffer length exceeded'']] \<and>
         files w' = files w \<and>
         filter writes_file (trace w') = filter writes_file (trace w) \<and>
         filter launches_backend (trace w') = filter launches_backend (trace w) \<and>
         diff_maxBuffer = 20 * 1024 * 1024"
proof -
  let ?w0 = "startSpinner (spinner_text name) w"
  let ?err = "JsError ''RangeError'' ''stdout maxBuffer length exceeded''"
  have "fst (getCommitDiffs e ?w0 (to_text repo) since) = Inl ?err"
    using big
  proof
    assume "default_maxBuffer < length (out_text (run_shell e (log_command (to_text repo) since)))"
    from getCommitHashes_overflow [OF this, of ?w0]
    show ?thesis
      by (cases "getCommitHashes e ?w0 (to_text repo) since") (simp add: getCommitDiffs_def)
  next
    assume "\<exists>hashes i.
              fst (getCommitHashes e w (to_text repo) since) = Inr hashes \<and>
              i < length hashes \<and> i < 10 \<and>
              (\<forall>j<i. \<exists>d. fst (getCommitDiff e w (to_text repo) (hashes ! j)) = Inr d) \<and>
              diff_maxBuffer < length (out_text (run_shell e (diff_command (to_text repo) (hashes ! i))))"
    then obtain hashes i where
      h: "fst (getCommitHashes e w (to_text repo) since) = Inr hashes"
      and i: "i < length hashes" "i < 10"
      and before: "\<forall>j<i. \<exists>d. fst (getCommitDiff e w (to_text repo) (hashes ! j)) = Inr d"
      and over: "diff_maxBuffer < length (out_text (run_shell e (diff_command (to_text repo) (hashes ! i))))"
      by blast
    from h have "fst (getCommitHashes e ?w0 (to_text repo) since) = Inr hashes"
      using fst_getCommitHashes_world [of e ?w0 "to_text repo" since w] by simp
    then obtain wh where wh: "getCommitHashes e ?w0 (to_text repo) since = (Inr hashes, wh)"
      by (cases "getCommitHashes e ?w0 (to_text repo) since") simp
    have a: "i < length (take 10 hashes)" using i by simp
    have b: "\<forall>j<i. \<exists>d. fst (getCommitDiff e wh (to_text repo) (take 10 hashes ! j)) = Inr d"
    proof (intro allI impI)
      fix j assume "j < i"
      with before i have "\<exists>d. fst (getCommitDiff e w (to_text repo) (hashes ! j)) = Inr d"
        and "take 10 hashes ! j = hashes ! j"
        by simp_all
      then show "\<exists>d. fst (getCommitDiff e wh (to_text repo) (take 10 hashes ! j)) = Inr d"
        using fst_getCommitDiff_world [of e wh "to_text repo" "hashes ! j" w] by simp
    qed
    have c: "fst (getCommitDiff e wh (to_text repo) (take 10 hashes ! i)) = Inl ?err"
      using getCommitDiff_overflow [OF over, of wh] i by simp
    from fetch_loop_first_failure [OF a b c, of "[]"] wh show ?thesis
      by (simp add: getCommitDiffs_def)
  qed
  from generate_extraction_error [OF cfg this run] show ?thesis
    by (simp add: message_or_error_def diff_maxBuffer_def)
qed


section \<open>The sample run, evaluated\<close>

lemma diff_command_not_log: "diff_command repoPath h \<noteq> log_command repoPath since"
  by (simp add: diff_command_def log_command_def)

lemma sample_diff_trim: "js_trim (''+x'' @ nl) = ''+x''"
  by code_simp

lemma sample_getCommitDiff:
  assumes "run_shell e = run_shell sample_env"
  shows "getCommitDiff e w ''/repo'' h
           = (Inr ''+x'', w\<lparr>trace := trace w @ [Exec (diff_command ''/repo'' h) diff_maxBuffer]\<rparr>)"
proof -
  have "run_shell e (diff_command ''/repo'' h) = \<lparr>out_text = ''+x'' @ nl, err_text = [], exit_code = 0\<rparr>"
    using assms diff_command_not_log [of "''/repo''" h sample_since]
    by (simp add: sample_env_def)
  then show ?thesis
    using sample_diff_trim
    by (simp add: getCommitDiff_def exec_def Let_def diff_maxBuffer_def nl_def)
qed

lemma sample_fetch_loop:
  assumes "run_shell e = run_shell sample_env"
  shows "fetch_loop e ''/repo'' hs diffs w
           = (Inr (diffs @ map (\<lambda>h. ''+x'') hs), w\<lparr>trace := trace w @ fetches ''/repo'' hs\<rparr>)"
proof (induction hs arbitrary: diffs w)
  case Nil
  show ?case by (simp add: fetches_def)
next
  case (Cons h hs)
  show ?case
    by (simp add: sample_getCommitDiff [OF assms] Cons.IH fetches_def)
qed

lemma sample_getCommitHashes_any:
  assumes "run_shell e = run_shell sample_env"
  shows "fst (getCommitHashes e w ''/repo'' sample_since) = Inr sample_hashes"
  using assms
  by (simp add: getCommitHashes_def exec_def Let_def sample_run_log sample_listing_length
        default_maxBuffer_def sample_listing_hashes)

lemma sample_getCommitDiffs:
  assumes "run_shell e = run_shell sample_env"
  shows "getCommitDiffs e w ''/repo'' sample_since
           = (Inr sample_diffs,
              w\<lparr>trace := trace w @ Exec (log_command ''/repo'' sample_since) default_maxBuffer
                   # fetches ''/repo'' (take 10 sample_hashes)\<rparr>)"
proof -
  have "getCommitHashes e w ''/repo'' sample_since
          = (Inr sample_hashes, w\<lparr>trace := trace w @ [Exec (log_command ''/repo'' sample_since) default_maxBuffer]\<rparr>)"
    using sample_getCommitHashes_any [OF assms, of w] snd_getCommitHashes [of e w "''/repo''" sample_since]
    by (simp add: prod_eq_iff)
  moreover have "map (\<lambda>h. ''+x'') (take 10 sample_hashes) = sample_diffs"
    by (simp add: sample_hashes_def sample_diffs_def)
  ultimately show ?thesis
    by (simp add: getCommitDiffs_def sample_fetch_loop [OF assms])
qed

lemma sample_getActiveRepoPath:
  "getActiveRepoPath sample_world = Inr (''crm'', Str ''/repo'', ''worklogs'')"
  by (simp add: getActiveRepoPath_def loadConfig_def sample_world_def sample_config_def
        get_property_def truthy_def)

lemma three_text: "int_toString 3 = ''3''"
  by code_simp

theorem generate_backend_exit_code_witness:
  "fst (generate failing_env sample_world sample_since) = Exited 1 \<and>
   err_stream (snd (generate failing_env sample_world sample_since))
     = [Log [S ''gemini exited code 3'']] \<and>
   files (snd (generate failing_env sample_world sample_since)) = Map.empty"
proof -
  have shell: "run_shell failing_env = run_shell sample_env"
    by (simp add: failing_env_def)
  obtain w1 where diffs:
    "getCommitDiffs failing_env (startSpinner (spinner_text ''crm'') sample_world)
       (to_text (Str ''/repo'')) sample_since = (Inr sample_diffs, w1)"
    using sample_getCommitDiffs [OF shell] by (simp add: to_text_def)
  have ne: "sample_diffs \<noteq> []"
    by (simp add: sample_diffs_def)
  have backend: "run_gemini failing_env (buildPromptFromDiffs sample_diffs) = (''partial'', Some 3)"
    by (simp add: failing_env_def)
  have run: "generate failing_env sample_world sample_since
               = (fst (generate failing_env sample_world sample_since),
                  snd (generate failing_env sample_world sample_since))"
    by simp
  from generate_backend_exit_code [OF sample_getActiveRepoPath diffs ne backend run]
  show ?thesis
    by (simp add: three_text sample_world_def)
qed

theorem generate_no_commits_witness:
  "main quiet_env sample_world [''generate''] =
     (Returned,
      sample_world\<lparr>out_stream :=
           [Write ''Generating worklog for crm...'',
            Write ([CHR 0x0D, CHR 0x1B] @ ''[K''),
            Log [S ''No commits found since'', S ''2025-08-01T04:00:00.000Z'']],
         trace := [Exec (log_command ''/repo'' ''2025-08-01T04:00:00.000Z'') default_maxBuffer],
         spinning := False\<rparr>) \<and>
   process_exit_code (fst (main quiet_env sample_world [''generate''])) = 0"
proof -
  have cmd: "argument [''generate''] 0 = Some ''generate''"
    by (simp add: argument_def)
  have "parseSinceDate quiet_env ''today'' = Inr sample_since"
    by code_simp
  then have window: "parseSinceDate quiet_env
        (case argument [''generate''] 1 of None \<Rightarrow> ''today''
         | Some a \<Rightarrow> if a = [] then ''today'' else a) = Inr sample_since"
    by (simp add: argument_def)
  have "js_trim [] = []" by code_simp
  then have none: "fst (getCommitHashes quiet_env sample_world (to_text (Str ''/repo'')) sample_since) = Inr []"
    by (simp add: getCommitHashes_def exec_def Let_def quiet_env_def default_maxBuffer_def)
  from generate_no_commits [OF cmd window sample_getActiveRepoPath none]
  show ?thesis
    by (simp add: to_text_def sample_since_def sample_world_def process_exit_code_def)
qed

lemma sample_date: "take 10 (iso_text (clock_write sample_env)) = ''2025-08-01''"
  by code_simp

lemma sample_outPath:
  "path_join [path_join [''/repo'', ''worklogs''], ''2025-08-01'' @ ''.md'']
     = ''/repo/worklogs/2025-08-01.md''"
  by code_simp

lemma sample_report_trim: "js_trim sample_report = ''- done''"
  by code_simp

theorem generate_output_too_large_witness:
  "fst (generate flooding_env sample_world sample_since) = Exited 1 \<and>
   err_stream (snd (generate flooding_env sample_world sample_since))
     = [Log [S ''stdout maxBuffer length exceeded'']] \<and>
   files (snd (generate flooding_env sample_world sample_since)) = Map.empty \<and>
   filter launches_backend (trace (snd (generate flooding_env sample_world sample_since))) = []"
proof -
  have run: "generate flooding_env sample_world sample_since
               = (fst (generate flooding_env sample_world sample_since),
                  snd (generate flooding_env sample_world sample_since))"
    by simp
  have log: "run_shell flooding_env (log_command ''/repo'' sample_since)
               = \<lparr>out_text = sample_listing, err_text = [], exit_code = 0\<rparr>"
    by (simp add: flooding_env_def)
  have h: "fst (getCommitHashes flooding_env sample_world (to_text (Str ''/repo'')) sample_since)
             = Inr sample_hashes"
    by (simp add: to_text_def getCommitHashes_def exec_def Let_def log sample_listing_length
          default_maxBuffer_def sample_listing_hashes)
  have over: "diff_maxBuffer
                < length (out_text (run_shell flooding_env
                    (diff_command (to_text (Str ''/repo'')) (sample_hashes ! 0))))"
    using diff_command_not_log [of "''/repo''" "sample_hashes ! 0" sample_since]
    by (simp add: flooding_env_def to_text_def diff_maxBuffer_def)
  have big: "default_maxBuffer
               < length (out_text (run_shell flooding_env (log_command (to_text (Str ''/repo'')) sample_since)))
             \<or> (\<exists>hashes i.
                   fst (getCommitHashes flooding_env sample_world (to_text (Str ''/repo'')) sample_since) = Inr hashes \<and>
                   i < length hashes \<and> i < 10 \<and>
                   (\<forall>j<i. \<exists>d. fst (getCommitDiff flooding_env sample_world (to_text (Str ''/repo'')) (hashes ! j)) = Inr d) \<and>
                   diff_maxBuffer < length (out_text (run_shell flooding_env
                      (diff_command (to_text (Str ''/repo'')) (hashes ! i)))))"
    using h over by (intro disjI2 exI [of _ sample_hashes] exI [of _ 0]) (simp add: sample_hashes_def)
  from generate_output_too_large [OF sample_getActiveRepoPath run big]
  show ?thesis
    by (simp add: sample_world_def)
qed

lemma sample_paths: "clean_path ''/repo'' \<and> plain_segment ''worklogs''"
  by code_simp

lemma sample_year: "YearFromTime (clock_write sample_env) = 2025"
  by code_simp

theorem generate_writes_report_witness:
  "clean_path ''/repo'' \<and> plain_segment ''worklogs'' \<and>
   0 \<le> YearFromTime (clock_write sample_env) \<and> YearFromTime (clock_write sample_env) \<le> 9999 \<and>
   fst (generate sample_env sample_world sample_since) = Returned \<and>
   files (snd (generate sample_env sample_world sample_since))
     = [''/repo'' @ ''/'' @ ''worklogs'' @ ''/'' @ ''2025-08-01'' @ ''.md'' \<mapsto>
          ''# Work Log '' @ [CHR 0xE2, CHR 0x80, CHR 0x94] @ '' 2025-08-01'' @ [CHR 0x0A, CHR 0x0A]
            @ ''- done'' @ [CHR 0x0A]]"
proof -
  obtain w1 where diffs:
    "getCommitDiffs sample_env (startSpinner (spinner_text ''crm'') sample_world)
       (to_text (Str ''/repo'')) sample_since = (Inr sample_diffs, w1)"
    using sample_getCommitDiffs [OF refl] by (simp add: to_text_def)
  have ne: "sample_diffs \<noteq> []"
    by (simp add: sample_diffs_def)
  have backend: "run_gemini sample_env (buildPromptFromDiffs sample_diffs) = (sample_report, Some 0)"
    by (simp add: sample_env_def)
  have io: "mkdir_error sample_env d = None" "write_error sample_env f = None" for d f
    by (simp_all add: sample_env_def)
  have ret: "fst (generate sample_env sample_world sample_since) = Returned"
    unfolding generate_launched [OF sample_getActiveRepoPath diffs ne] callGemini_result [OF backend]
    by (simp add: path_join_value_def mkdirSync_def writeFileSync_def io)
  then have run: "generate sample_env sample_world sample_since
               = (Returned, snd (generate sample_env sample_world sample_since))"
    by (simp add: prod_eq_iff)
  have year: "0 \<le> YearFromTime (clock_write sample_env) \<and> YearFromTime (clock_write sample_env) \<le> 9999"
    by (simp add: sample_year)
  from generate_writes_report [OF sample_getActiveRepoPath diffs ne run]
  obtain repositoryPath result date outPath where
    r: "Str ''/repo'' = Str repositoryPath"
    and b: "run_gemini sample_env (buildPromptFromDiffs sample_diffs) = (result, Some 0)"
    and d: "date = take 10 (iso_text (clock_write sample_env))"
    and f: "files (snd (generate sample_env sample_world sample_since))
              = (files sample_world)(outPath \<mapsto>
                  ''# Work Log '' @ [CHR 0xE2, CHR 0x80, CHR 0x94] @ '' '' @ date @ [CHR 0x0A, CHR 0x0A]
                    @ js_trim result @ [CHR 0x0A])"
    and p: "clean_path repositoryPath \<and> plain_segment ''worklogs'' \<longrightarrow>
              outPath = repositoryPath @ ''/'' @ ''worklogs'' @ ''/'' @ date @ ''.md''"
    by blast
  from r p sample_paths have "outPath = ''/repo'' @ ''/'' @ ''worklogs'' @ ''/'' @ date @ ''.md''"
    by simp
  moreover from b backend have "result = sample_report" by simp
  moreover from d have "date = ''2025-08-01''" by (simp add: sample_date)
  ultimately have "files (snd (generate sample_env sample_world sample_since))
     = [''/repo'' @ ''/'' @ ''worklogs'' @ ''/'' @ ''2025-08-01'' @ ''.md'' \<mapsto>
          ''# Work Log '' @ [CHR 0xE2, CHR 0x80, CHR 0x94] @ '' 2025-08-01'' @ [CHR 0x0A, CHR 0x0A]
            @ ''- done'' @ [CHR 0x0A]]"
    using f by (simp add: sample_report_trim sample_world_def)
  with sample_paths year ret show ?thesis
    by blast
qed

theorem getCommitDiffs_first_ten_witness:
  "10 < length sample_hashes \<and>
   fst (getCommitDiffs sample_env sample_world ''/repo'' sample_since) = Inr sample_diffs \<and>
   length sample_diffs = 10 \<and>
   trace (snd (getCommitDiffs sample_env sample_world ''/repo'' sample_since))
     = Exec (log_command ''/repo'' sample_since) default_maxBuffer
         # map (\<lambda>h. Exec (diff_command ''/repo'' h) diff_maxBuffer) (take 10 sample_hashes)"
proof -
  have "fst (getCommitHashes sample_env sample_world ''/repo'' sample_since) = Inr sample_hashes"
    by (rule sample_getCommitHashes)
  then have h: "getCommitHashes sample_env sample_world ''/repo'' sample_since
                  = (Inr sample_hashes, snd (getCommitHashes sample_env sample_world ''/repo'' sample_since))"
    by (simp add: prod_eq_iff)
  have l: "10 < length sample_hashes"
    by (simp add: sample_hashes_def)
  have ok: "\<forall>h \<in> set (take 10 sample_hashes).
              \<exists>d. fst (getCommitDiff sample_env sample_world ''/repo'' h) = Inr d"
    by (simp add: sample_getCommitDiff [OF refl])
  obtain r w' where run: "getCommitDiffs sample_env sample_world ''/repo'' sample_since = (r, w')"
    by (cases "getCommitDiffs sample_env sample_world ''/repo'' sample_since")
  from getCommitDiffs_first_ten [OF h l run] ok obtain k diffs where
    t: "trace w' = trace sample_world @ [Exec (log_command ''/repo'' sample_since) default_maxBuffer]
          @ map (\<lambda>h. Exec (diff_command ''/repo'' h) diff_maxBuffer) (take k sample_hashes)"
    and r: "r = Inr diffs"
    and all: "\<forall>diffs. r = Inr diffs \<longrightarrow>
              k = 10 \<and> length diffs = 10 \<and>
              diffs = map (\<lambda>h. js_trim (out_text (run_shell sample_env (diff_command ''/repo'' h))))
                        (take 10 sample_hashes)"
    by blast
  from r all have "k = 10 \<and> length diffs = 10" by blast
  then have k: "k = 10" and len: "length diffs = 10" by simp_all
  from r run sample_getCommitDiffs [OF refl, of sample_world] have "diffs = sample_diffs"
    by simp
  with l r k len t run show ?thesis
    by (simp add: sample_world_def)
qed

section \<open>Properties of the command line and the registry\<close>

lemma sample_today: "parseSinceDate sample_env ''today'' = Inr sample_since"
  by code_simp

lemma sample_config_dir:
  "path_dirname ''/home/dev/.worklogs/projects.json'' = ''/home/dev/.worklogs''"
  by code_simp

text \<open>
  Claim C5, evaluated for the \<open>generate\<close> command on a registry with no active project, and on
  one whose active project has no path: \<open>getActiveRepoPath\<close> throws before the \<open>try\<close> block of
  \<open>generate\<close>, the top-level handler prints the message, and the process ends with exit code 0.
\<close>

theorem main_configuration_failure_exit_code:
  "main sample_env unset_world [''generate'']
     = (Returned, unset_world\<lparr>err_stream := [Log [S ''No activeProject in config'']]\<rparr>) \<and>
   process_exit_code (fst (main sample_env unset_world [''generate''])) = 0 \<and>
   main sample_env stale_world [''generate'']
     = (Returned, stale_world\<lparr>err_stream := [Log [S ''Project path missing for gone'']]\<rparr>) \<and>
   process_exit_code (fst (main sample_env stale_world [''generate''])) = 0"
proof -
  have a: "getActiveRepoPath unset_world = Inl (JsError ''Error'' ''No activeProject in config'')"
    by (simp add: getActiveRepoPath_def loadConfig_def unset_world_def sample_world_def
          sample_config_def)
  have b: "getActiveRepoPath stale_world = Inl (JsError ''Error'' ''Project path missing for gone'')"
    by (simp add: getActiveRepoPath_def loadConfig_def stale_world_def sample_world_def
          sample_config_def get_property_def object_prototype_keys_def)
  have c: "main sample_env w [''generate''] = (Returned, console_error [S (err_message err)] w)"
    if "getActiveRepoPath w = Inl err" and "err_message err \<noteq> []" for w err
    using that sample_today
    by (simp add: main_def dispatch_def argument_def generate_def message_or_error_def)
  have "main sample_env unset_world [''generate'']
     = (Returned, unset_world\<lparr>err_stream := [Log [S ''No activeProject in config'']]\<rparr>)"
    using c [OF a] by (simp add: console_error_def unset_world_def sample_world_def)
  moreover have "main sample_env stale_world [''generate'']
     = (Returned, stale_world\<lparr>err_stream := [Log [S ''Project path missing for gone'']]\<rparr>)"
    using c [OF b] by (simp add: console_error_def stale_world_def sample_world_def)
  ultimately show ?thesis
    by (simp add: process_exit_code_def)
qed

lemma setActiveProject_unknown:
  assumes "registry w = Inr cfg" and "projects cfg = Some ps"
    and "map_of ps name = None" and "name \<notin> set object_prototype_keys"
  shows "setActiveProject e w (Some name)
           = (Inl (JsError ''Error'' (''Unknown project: '' @ name)), w)"
  using assms
  by (simp add: setActiveProject_def loadConfig_def get_property_def truthy_def opt_text_def)

text \<open>
  Claim C10, evaluated for the name \<open>toString\<close>, which the project mapping does not contain:
  the look-up finds the member inherited from \<open>Object.prototype\<close>, no error is thrown, and the
  registry is saved with \<open>toString\<close> as its active project.
\<close>

theorem setActiveProject_inherited_name:
  "map_of [(''crm'', ''/repo'')] ''toString'' = None \<and>
   registry sample_world
     = Inr \<lparr>projects = Some [(''crm'', ''/repo'')], activeProject = Some ''crm'',
            worklogFolderName = None\<rparr> \<and>
   fst (setActiveProject sample_env sample_world (Some ''toString'')) = Inr () \<and>
   registry (snd (setActiveProject sample_env sample_world (Some ''toString'')))
     = Inr \<lparr>projects = Some [(''crm'', ''/repo'')], activeProject = Some ''toString'',
            worklogFolderName = None\<rparr> \<and>
   trace (snd (setActiveProject sample_env sample_world (Some ''toString'')))
     = [Mkdir ''/home/dev/.worklogs'',
        WriteRegistry ''/home/dev/.worklogs/projects.json''
          \<lparr>projects = Some [(''crm'', ''/repo'')], activeProject = Some ''toString'',
            worklogFolderName = None\<rparr>]"
proof -
  have io: "mkdir_error sample_env d = None" "write_error sample_env f = None" for d f
    by (simp_all add: sample_env_def)
  have cfgp: "CONFIG sample_env = ''/home/dev/.worklogs/projects.json''"
    by (simp add: sample_env_def)
  have t: "truthy (get_property [(''crm'', ''/repo'')] ''toString'')"
    by (simp add: get_property_def truthy_def object_prototype_keys_def)
  show ?thesis
    using t
    by (simp add: setActiveProject_def loadConfig_def saveConfig_def mkdirSync_def io
          sample_config_dir cfgp sample_world_def sample_config_def opt_text_def console_log_def)
qed

end
